theory Spec2Isabelle
  imports
    Main
    "HOL-Library.Sublist"
    "HOL-Library.Multiset"
    "HOL-Library.List_Lexorder"
    "HOL-Library.Product_Lexorder"
    "HOL-Library.Word"
begin

section \<open>Strings, bytes and the runtime library\<close>

text \<open>
  A Python \<open>str\<close> is a sequence of Unicode code points, so it is a list of naturals here
  (\<open>length\<close> counts code points, comparison is lexicographic on code points, as in
  Python). \<open>ustr\<close> turns an ASCII literal into such a string. A \<open>bytes\<close> object is a
  list of 8-bit words.
\<close>

type_synonym ustring = "nat list"
type_synonym bytes = "8 word list"

definition ustr :: "string \<Rightarrow> ustring" where
  "ustr s = map of_char s"

text \<open>
  Three pieces of the Python runtime are used by the source and not part of it. They are
  parameters of the model, so every theorem that is stated for an arbitrary \<open>pylib\<close>
  holds whatever these functions do:
  \<^item> \<open>py_unescape\<close>: \<open>html.unescape\<close>;
  \<^item> \<open>py_lower\<close>: \<open>str.lower\<close>;
  \<^item> \<open>py_isalnum\<close>: the Unicode table behind \<open>\w\<close> for code points from 128 on
    (below 128 the class is written out in \<open>is_word\<close>).
\<close>

record pylib =
  py_unescape :: "ustring \<Rightarrow> ustring"
  py_lower :: "ustring \<Rightarrow> ustring"
  py_isalnum :: "nat \<Rightarrow> bool"

subsection \<open>Character classes of the regular expressions\<close>

text \<open>\<open>\s\<close> on \<open>str\<close> patterns, which is also the set \<open>str.strip()\<close> removes.\<close>

definition is_space :: "nat \<Rightarrow> bool" where
  "is_space c \<longleftrightarrow>
     (9 \<le> c \<and> c \<le> 13) \<or> (28 \<le> c \<and> c \<le> 32) \<or> c = 133 \<or> c = 160 \<or> c = 5760 \<or>
     (8192 \<le> c \<and> c \<le> 8202) \<or> c = 8232 \<or> c = 8233 \<or> c = 8239 \<or> c = 8287 \<or> c = 12288"

definition ascii_alnum :: "nat \<Rightarrow> bool" where
  "ascii_alnum c \<longleftrightarrow> (48 \<le> c \<and> c \<le> 57) \<or> (65 \<le> c \<and> c \<le> 90) \<or> (97 \<le> c \<and> c \<le> 122)"

text \<open>\<open>\w\<close>: alphanumeric or underscore.\<close>

definition is_word :: "pylib \<Rightarrow> nat \<Rightarrow> bool" where
  "is_word L c \<longleftrightarrow> c = 95 \<or> (if c < 128 then ascii_alnum c else py_isalnum L c)"

text \<open>
  The letter class of \<open>is_likely_human_text\<close>:
  \<open>[A-Za-z\<dots>]\<close> with the ranges U+00C0-00D6, U+00D8-00F6, U+00F8-00FF, U+0100-017E,
  U+0400-045F, U+05D0-05EA, U+0600-06FF, U+0900-097F, U+0E01-0E5B, U+4E00-9FA5,
  U+3041-309F, U+AC00-D7A3.
\<close>

definition human_letter :: "nat \<Rightarrow> bool" where
  "human_letter c \<longleftrightarrow>
     (65 \<le> c \<and> c \<le> 90) \<or> (97 \<le> c \<and> c \<le> 122) \<or>
     (192 \<le> c \<and> c \<le> 214) \<or> (216 \<le> c \<and> c \<le> 246) \<or> (248 \<le> c \<and> c \<le> 255) \<or>
     (256 \<le> c \<and> c \<le> 382) \<or> (1024 \<le> c \<and> c \<le> 1119) \<or> (1488 \<le> c \<and> c \<le> 1514) \<or>
     (1536 \<le> c \<and> c \<le> 1791) \<or> (2304 \<le> c \<and> c \<le> 2431) \<or> (3585 \<le> c \<and> c \<le> 3675) \<or>
     (19968 \<le> c \<and> c \<le> 40869) \<or> (12353 \<le> c \<and> c \<le> 12447) \<or> (44032 \<le> c \<and> c \<le> 55203)"

text \<open>\<open>[0-9A-Fa-f-]\<close> of \<open>should_skip_text\<close>.\<close>

definition hex_or_dash :: "nat \<Rightarrow> bool" where
  "hex_or_dash c \<longleftrightarrow>
     (48 \<le> c \<and> c \<le> 57) \<or> (65 \<le> c \<and> c \<le> 70) \<or> (97 \<le> c \<and> c \<le> 102) \<or> c = 45"

text \<open>The two classes of \<open>word_count\<close>: U+4E00-9FFF, U+3040-30FF, U+AC00-D7AF, and
  \<open>[A-Za-z\<dots>0-9']\<close> with U+00C0-00D6, U+00D8-00F6, U+00F8-00FF.\<close>

definition cjk_char :: "nat \<Rightarrow> bool" where
  "cjk_char c \<longleftrightarrow>
     (19968 \<le> c \<and> c \<le> 40959) \<or> (12352 \<le> c \<and> c \<le> 12543) \<or> (44032 \<le> c \<and> c \<le> 55215)"

definition count_char :: "nat \<Rightarrow> bool" where
  "count_char c \<longleftrightarrow>
     (65 \<le> c \<and> c \<le> 90) \<or> (97 \<le> c \<and> c \<le> 122) \<or>
     (192 \<le> c \<and> c \<le> 214) \<or> (216 \<le> c \<and> c \<le> 246) \<or> (248 \<le> c \<and> c \<le> 255) \<or>
     (48 \<le> c \<and> c \<le> 57) \<or> c = 39"

subsection \<open>The regular-expression operations the source uses\<close>

text \<open>\<open>re.sub('[C]+', r, s)\<close>: every maximal run of characters of the class is replaced by
  \<open>r\<close>.\<close>

fun sub_runs :: "('a \<Rightarrow> bool) \<Rightarrow> 'a list \<Rightarrow> 'a list \<Rightarrow> 'a list" where
  "sub_runs P r [] = []"
| "sub_runs P r [x] = (if P x then r else [x])"
| "sub_runs P r (x # y # xs) =
     (if P x then (if P y then sub_runs P r (y # xs) else r @ sub_runs P r (y # xs))
      else x # sub_runs P r (y # xs))"

text \<open>\<open>len(re.findall('[C]+', s))\<close>: the number of maximal runs of the class.\<close>

fun count_runs :: "('a \<Rightarrow> bool) \<Rightarrow> 'a list \<Rightarrow> nat" where
  "count_runs P [] = 0"
| "count_runs P [x] = (if P x then 1 else 0)"
| "count_runs P (x # y # xs) =
     (if P x \<and> \<not> P y then 1 else 0) + count_runs P (y # xs)"

text \<open>\<open>re.fullmatch('[C]+', s)\<close> and \<open>re.fullmatch('[C]{8,}', s)\<close>.\<close>

definition fullmatch_plus :: "('a \<Rightarrow> bool) \<Rightarrow> 'a list \<Rightarrow> bool" where
  "fullmatch_plus P s \<longleftrightarrow> s \<noteq> [] \<and> list_all P s"

definition fullmatch_min :: "nat \<Rightarrow> ('a \<Rightarrow> bool) \<Rightarrow> 'a list \<Rightarrow> bool" where
  "fullmatch_min n P s \<longleftrightarrow> n \<le> length s \<and> list_all P s"

text \<open>\<open>str.strip()\<close>.\<close>

definition strip :: "ustring \<Rightarrow> ustring" where
  "strip s = rev (dropWhile is_space (rev (dropWhile is_space s)))"

section \<open>Text normalizer, classifier and word count\<close>

definition normalize_text :: "pylib \<Rightarrow> ustring option \<Rightarrow> ustring" where
  "normalize_text L s =
     (case s of
        None \<Rightarrow> []
      | Some s0 \<Rightarrow>
          (let s1 = py_unescape L s0;
               s2 = map (\<lambda>c. if c = 160 then 32 else c) s1
           in strip (sub_runs is_space [32] s2)))"

definition is_likely_human_text :: "ustring \<Rightarrow> bool" where
  "is_likely_human_text s \<longleftrightarrow> (if s = [] then False else list_ex human_letter s)"

definition should_skip_text :: "pylib \<Rightarrow> ustring \<Rightarrow> bool" where
  "should_skip_text L s \<longleftrightarrow>
     (if s = [] \<or> s = [45] then True
      else if fullmatch_plus (\<lambda>c. \<not> is_word L c \<or> c = 95) s then True
      else if fullmatch_min 8 hex_or_dash s then True
      else False)"

definition word_count :: "ustring \<Rightarrow> nat" where
  "word_count text =
     (if text = [] then 0
      else
        (let cjk = filter cjk_char text;
             no_cjk = map (\<lambda>c. if cjk_char c then 32 else c) text;
             words = count_runs count_char no_cjk
         in words + length cjk))"

text \<open>
  Whitespace normal form (a predicate for the proofs): the only whitespace characters
  are single ordinary spaces, each followed by a character that is not whitespace.
\<close>

fun tidy :: "ustring \<Rightarrow> bool" where
  "tidy [] = True"
| "tidy [x] = (is_space x \<longrightarrow> x = 32)"
| "tidy (x # y # xs) = ((is_space x \<longrightarrow> x = 32 \<and> \<not> is_space y) \<and> tidy (y # xs))"

section \<open>Markup tree walker\<close>

text \<open>
  An element of \<open>xml.etree.ElementTree\<close>: tag, attribute dictionary (in insertion
  order), direct text, tail text (both may be \<open>None\<close>) and the ordered children.
\<close>

datatype elem =
  Elem (tag: ustring) (attrib: "(ustring \<times> ustring) list")
       (etext: "ustring option") (etail: "ustring option") (children: "elem list")

type_synonym row = "ustring \<times> ustring \<times> ustring"

definition TRANSLATABLE_ATTRS :: "ustring set" where
  "TRANSLATABLE_ATTRS = set (map ustr
     [''alt'', ''title'', ''label'', ''aria-label'', ''aria_title'', ''tooltip'', ''placeholder'',
      ''value'', ''caption'', ''text'', ''content'', ''name'', ''displayName''])"

definition NOISE_ATTRS :: "ustring set" where
  "NOISE_ATTRS = set (map ustr
     [''id'', ''uid'', ''guid'', ''rid'', ''x'', ''y'', ''w'', ''h'', ''left'', ''top'', ''width'',
      ''height'', ''style'', ''class'', ''ctype'', ''type'', ''lang'', ''language'', ''src'',
      ''href'', ''fill'', ''stroke'', ''font'', ''fontSize'', ''color'', ''alignment'', ''bold'',
      ''italic'', ''underline''])"

definition LIKELY_TEXT_TAGS :: "ustring set" where
  "LIKELY_TEXT_TAGS = set (map ustr
     [''text'', ''p'', ''span'', ''div'', ''tspan'', ''title'', ''desc'', ''caption'', ''para'',
      ''run'', ''li'', ''h1'', ''h2'', ''h3'', ''h4'', ''h5'', ''h6'', ''td'', ''th'', ''label'',
      ''value'', ''name'', ''g''])"

definition SKIP_TAGS :: "ustring set" where
  "SKIP_TAGS = set (map ustr
     [''style'', ''script'', ''defs'', ''metadata'', ''font'', ''image'', ''img'', ''svg'', ''use'',
      ''clipPath''])"

text \<open>\<open>s.split('}', 1)[-1] if '}' in s else s\<close>: what follows the first closing brace.\<close>

definition bare_name :: "ustring \<Rightarrow> ustring" where
  "bare_name s = (if 125 \<in> set s then tl (dropWhile (\<lambda>c. c \<noteq> 125) s) else s)"

text \<open>Storing into a Python dict: an existing key keeps its position and takes the new
  value, a new key goes to the end.\<close>

fun dict_set :: "('k \<times> 'v) list \<Rightarrow> 'k \<Rightarrow> 'v \<Rightarrow> ('k \<times> 'v) list" where
  "dict_set [] k v = [(k, v)]"
| "dict_set ((k', v') # d) k v = (if k' = k then (k, v) # d else (k', v') # dict_set d k v)"

text \<open>The dict comprehension that strips the namespace of every attribute name.\<close>

definition bare_attrs :: "elem \<Rightarrow> (ustring \<times> ustring) list" where
  "bare_attrs e = foldl (\<lambda>d (k, v). dict_set d (bare_name k) v) [] (attrib e)"

text \<open>\<open>sep.join(parts)\<close> and the location path \<open>'/' + '/'.join(parts)\<close>.\<close>

fun join :: "ustring \<Rightarrow> ustring list \<Rightarrow> ustring" where
  "join sep [] = []"
| "join sep [x] = x"
| "join sep (x # y # xs) = x @ sep @ join sep (y # xs)"

definition loc_path :: "ustring list \<Rightarrow> ustring" where
  "loc_path parts = 47 # join [47] parts"

text \<open>
  The loop over the attribute values that runs when \<open>include_alttext\<close> is false: it
  stops at the first value that contains \<open>.AltText\<close>. Leaving the loop is all it does, so
  its only result is whether it stopped early.
\<close>

definition alttext_scan :: "(ustring \<times> ustring) list \<Rightarrow> bool" where
  "alttext_scan attrs = list_ex (\<lambda>v. sublist (ustr ''.AltText'') v) (map snd attrs)"

definition text_rows :: "pylib \<Rightarrow> ustring \<Rightarrow> ustring list \<Rightarrow> ustring \<Rightarrow> elem \<Rightarrow> row list" where
  "text_rows L file_id path tg e =
     (let txt = normalize_text L (Some (case etext e of None \<Rightarrow> [] | Some t \<Rightarrow> t))
      in if txt \<noteq> [] \<and> (tg \<in> LIKELY_TEXT_TAGS \<or> is_likely_human_text txt)
            \<and> \<not> should_skip_text L txt
         then [(file_id, loc_path (path @ [tg, ustr ''#text'']), txt)] else [])"

definition attr_rows ::
  "pylib \<Rightarrow> ustring \<Rightarrow> ustring list \<Rightarrow> ustring \<Rightarrow> (ustring \<times> ustring) \<Rightarrow> row list" where
  "attr_rows L file_id path tg kv =
     (let kk = fst kv; v = snd kv
      in if kk \<in> NOISE_ATTRS then []
         else
           (let val = normalize_text L (Some v)
            in if kk \<in> TRANSLATABLE_ATTRS \<or> is_likely_human_text val
               then (if \<not> should_skip_text L val
                     then [(file_id, loc_path (path @ [tg, 64 # kk]), val)] else [])
               else []))"

definition tail_rows :: "pylib \<Rightarrow> ustring \<Rightarrow> ustring list \<Rightarrow> ustring \<Rightarrow> elem \<Rightarrow> row list" where
  "tail_rows L file_id path tg e =
     (let tl_txt = normalize_text L (Some (case etail e of None \<Rightarrow> [] | Some t \<Rightarrow> t))
      in if tl_txt \<noteq> [] \<and> is_likely_human_text tl_txt \<and> \<not> should_skip_text L tl_txt
         then [(file_id, loc_path (path @ [tg, ustr ''#tail'']), tl_txt)] else [])"

text \<open>Everything one iteration of the loop appends for an element that is not skipped.\<close>

definition node_rows ::
  "pylib \<Rightarrow> ustring \<Rightarrow> bool \<Rightarrow> elem \<Rightarrow> ustring list \<Rightarrow> row list" where
  "node_rows L file_id include_alttext e path =
     (let tg = bare_name (tag e);
          attrs = bare_attrs e;
          stopped = (if \<not> include_alttext then alttext_scan attrs else False)
      in text_rows L file_id path tg e
         @ concat (map (attr_rows L file_id path tg) attrs)
         @ tail_rows L file_id path tg e)"

fun esize :: "elem \<Rightarrow> nat" where
  "esize (Elem t a x y cs) = Suc (sum_list (map esize cs))"

text \<open>
  The \<open>while stack\<close> loop. The stack is the Python list: \<open>pop()\<close> takes the last
  entry, the children are appended in reverse.
\<close>

function walk_stack ::
  "pylib \<Rightarrow> ustring \<Rightarrow> bool \<Rightarrow> (elem \<times> ustring list) list \<Rightarrow> row list \<Rightarrow> row list" where
  "walk_stack L file_id include_alttext stack out_rows =
     (if stack = [] then out_rows
      else if bare_name (tag (fst (last stack))) \<in> SKIP_TAGS
      then walk_stack L file_id include_alttext (butlast stack) out_rows
      else walk_stack L file_id include_alttext
             (butlast stack @
              map (\<lambda>child. (child, snd (last stack) @ [bare_name (tag (fst (last stack)))]))
                  (rev (children (fst (last stack)))))
             (out_rows @ node_rows L file_id include_alttext (fst (last stack)) (snd (last stack))))"
  by pat_completeness auto

termination
proof (relation "measure (\<lambda>(L, f, i, stack, out). sum_list (map (esize \<circ> fst) stack))")
  show "wf (measure (\<lambda>(L, f, i, stack, out). sum_list (map (esize \<circ> fst) stack)))"
    by simp
next
  fix L :: pylib and file_id :: ustring and include_alttext :: bool
    and stack :: "(elem \<times> ustring list) list" and out_rows :: "row list"
  assume ne: "stack \<noteq> []"
  have split: "sum_list (map (esize \<circ> fst) stack)
      = sum_list (map (esize \<circ> fst) (butlast stack)) + esize (fst (last stack))"
    using ne by (induction stack rule: rev_induct) simp_all
  then show "((L, file_id, include_alttext, butlast stack, out_rows),
              (L, file_id, include_alttext, stack, out_rows))
             \<in> measure (\<lambda>(L, f, i, stack, out). sum_list (map (esize \<circ> fst) stack))"
    by (cases "fst (last stack)") simp
next
  fix L :: pylib and file_id :: ustring and include_alttext :: bool
    and stack :: "(elem \<times> ustring list) list" and out_rows :: "row list"
  assume ne: "stack \<noteq> []"
  have split: "sum_list (map (esize \<circ> fst) stack)
      = sum_list (map (esize \<circ> fst) (butlast stack)) + esize (fst (last stack))"
    using ne by (induction stack rule: rev_induct) simp_all
  have kids: "sum_list (map esize (children (fst (last stack)))) < esize (fst (last stack))"
    by (cases "fst (last stack)") simp
  have "sum_list (map (esize \<circ> fst)
          (map (\<lambda>child. (child, snd (last stack) @ [bare_name (tag (fst (last stack)))]))
               (rev (children (fst (last stack))))))
        = sum_list (map esize (children (fst (last stack))))"
    by (simp add: comp_def rev_map [symmetric])
  then show "((L, file_id, include_alttext,
               butlast stack @
               map (\<lambda>child. (child, snd (last stack) @ [bare_name (tag (fst (last stack)))]))
                   (rev (children (fst (last stack)))),
               out_rows @ node_rows L file_id include_alttext (fst (last stack)) (snd (last stack))),
              (L, file_id, include_alttext, stack, out_rows))
             \<in> measure (\<lambda>(L, f, i, stack, out). sum_list (map (esize \<circ> fst) stack))"
    using split kids by simp
qed

declare walk_stack.simps [simp del]

definition walk_xml_collect ::
  "pylib \<Rightarrow> elem \<Rightarrow> ustring \<Rightarrow> row list \<Rightarrow> bool \<Rightarrow> row list" where
  "walk_xml_collect L root file_id out_rows include_alttext =
     walk_stack L file_id include_alttext [(root, [])] out_rows"

text \<open>
  The same traversal written as a recursion over the tree (a proof device, not a
  translation: \<open>walk_stack_eq\<close> below shows that the loop computes it).
\<close>

fun walk_rec :: "pylib \<Rightarrow> ustring \<Rightarrow> bool \<Rightarrow> ustring list \<Rightarrow> elem \<Rightarrow> row list" where
  "walk_rec L file_id include_alttext path (Elem t a x y cs) =
     (if bare_name t \<in> SKIP_TAGS then []
      else node_rows L file_id include_alttext (Elem t a x y cs) path
           @ concat (map (walk_rec L file_id include_alttext (path @ [bare_name t])) cs))"

section \<open>Hierarchical data walker\<close>

text \<open>
  What \<open>json.loads\<close> returns. A float is carried as its \<open>str()\<close> form, the only thing
  the walker reads of it; \<open>bool\<close> is a subclass of \<open>int\<close> in Python, so the
  \<open>isinstance\<close> test of the walker accepts it. A dict is the list of its items in
  insertion order.
\<close>

datatype json =
  JNull | JBool bool | JInt int | JFloat ustring | JStr ustring
| JList "json list" | JDict "(ustring \<times> json) list"

function str_nat :: "nat \<Rightarrow> ustring" where
  "str_nat n = (if n < 10 then [48 + n] else str_nat (n div 10) @ [48 + n mod 10])"
  by pat_completeness auto
termination
  by (relation "measure id") auto

declare str_nat.simps [simp del]

text \<open>\<open>str(v)\<close> for the values that pass \<open>isinstance(v, (str, int, float))\<close>; \<open>None\<close>
  for the others.\<close>

fun scalar_str :: "json \<Rightarrow> ustring option" where
  "scalar_str (JStr s) = Some s"
| "scalar_str (JInt i) = Some (if i < 0 then 45 # str_nat (nat (- i)) else str_nat (nat i))"
| "scalar_str (JFloat r) = Some r"
| "scalar_str (JBool b) = Some (if b then ustr ''True'' else ustr ''False'')"
| "scalar_str v = None"

fun is_container :: "json \<Rightarrow> bool" where
  "is_container (JDict items) = True"
| "is_container (JList vs) = True"
| "is_container v = False"

text \<open>
  \<open>extract_from_json\<close> with its two loops: \<open>extract_items\<close> is the loop over
  \<open>doc.items()\<close>, \<open>extract_elems\<close> the loop over the list. The function has no path
  argument: \<open>new_path\<close> is built from the key alone.
\<close>

function (sequential)
  extract_from_json :: "pylib \<Rightarrow> json \<Rightarrow> ustring \<Rightarrow> row list \<Rightarrow> row list" and
  extract_items :: "pylib \<Rightarrow> (ustring \<times> json) list \<Rightarrow> ustring \<Rightarrow> row list \<Rightarrow> row list" and
  extract_elems :: "pylib \<Rightarrow> json list \<Rightarrow> ustring \<Rightarrow> row list \<Rightarrow> row list"
where
  "extract_from_json L (JDict items) file_id out_rows = extract_items L items file_id out_rows"
| "extract_from_json L (JList vs) file_id out_rows = extract_elems L vs file_id out_rows"
| "extract_from_json L doc file_id out_rows = out_rows"
| "extract_items L [] file_id out_rows = out_rows"
| "extract_items L ((k, v) # items) file_id out_rows =
     extract_items L items file_id
       (let new_path = ustr ''$.'' @ k
        in if is_container v then extract_from_json L v file_id out_rows
           else
             (case scalar_str v of
                None \<Rightarrow> out_rows
              | Some sv \<Rightarrow>
                  (let val = normalize_text L (Some sv)
                   in if val \<noteq> [] \<and> is_likely_human_text val \<and> \<not> should_skip_text L val
                      then (if py_lower L k \<notin> NOISE_ATTRS
                            then out_rows @ [(file_id, new_path, val)] else out_rows)
                      else out_rows)))"
| "extract_elems L [] file_id out_rows = out_rows"
| "extract_elems L (v # vs) file_id out_rows =
     extract_elems L vs file_id (extract_from_json L v file_id out_rows)"
  by pat_completeness auto
termination
  by (relation "measure (\<lambda>x. case x of
          Inl (L, d, f, out) \<Rightarrow> size d
        | Inr (Inl (L, items, f, out)) \<Rightarrow> size_list (size_prod (\<lambda>k. 0) size) items
        | Inr (Inr (L, vs, f, out)) \<Rightarrow> size_list size vs)") auto

section \<open>Container scan, deduplication and sorting\<close>

text \<open>
  The exceptions that leave a function of the source are values: \<open>Inl\<close> of the
  exception is the call that raises, \<open>Inr\<close> the call that returns.
\<close>

datatype error = BadZipFile | ParseError | ValueError | LookupError | RuntimeError

text \<open>
  A container entry as the scan sees it: its name, \<open>is_dir()\<close>, and what \<open>zf.read\<close>
  gives (\<open>None\<close> when it raises; the source catches every exception of it). The
  archive reader and the two parsers are outside the source, so they are parameters.
  \<open>ZipFile\<close> and \<open>ET.fromstring\<close> return or raise: \<open>ET.fromstring\<close> raises
  \<open>ParseError\<close> on malformed markup and other exceptions besides (\<open>ValueError\<close> for
  a declared multi-byte encoding, \<open>LookupError\<close> for an unknown one).
  \<open>json_loads\<close> stands for decoding and \<open>json.loads\<close> together; the source catches
  every exception of them, so \<open>None\<close> is all it needs.
\<close>

record entry =
  filename :: ustring
  is_dir :: bool
  content :: "bytes option"

record parsers =
  zip_infolist :: "bytes \<Rightarrow> error + entry list"
  et_fromstring :: "bytes \<Rightarrow> error + elem"
  json_loads :: "bytes \<Rightarrow> json option"

record media_counts =
  images :: nat
  audio :: nat
  video :: nat
  other :: nat

text \<open>\<open>name.endswith((ext1, ext2, \<dots>))\<close>.\<close>

definition endswith :: "ustring \<Rightarrow> string list \<Rightarrow> bool" where
  "endswith s exts = list_ex (\<lambda>ext. suffix (ustr ext) s) exts"

text \<open>The class \<open>[^\x09\x0A\x0D\x20-\xFF]\<close> of the fallback in \<open>parse_xml_bytes\<close>.\<close>

definition stripped_byte :: "8 word \<Rightarrow> bool" where
  "stripped_byte b \<longleftrightarrow> \<not> (b = 9 \<or> b = 10 \<or> b = 13 \<or> (32 \<le> b \<and> b \<le> 255))"

text \<open>
  Both \<open>try\<close> blocks catch \<open>ET.ParseError\<close> and nothing else: any other exception of
  the parser leaves \<open>parse_xml_bytes\<close>. The function returns the root, or \<open>None\<close>
  after two parse errors.
\<close>

definition parse_xml_bytes :: "parsers \<Rightarrow> bytes \<Rightarrow> error + elem option" where
  "parse_xml_bytes P data =
     (case et_fromstring P data of
        Inr root \<Rightarrow> Inr (Some root)
      | Inl err \<Rightarrow>
          if err = ParseError
          then (let cleaned = sub_runs stripped_byte [] data
                in case et_fromstring P cleaned of
                     Inr root \<Rightarrow> Inr (Some root)
                   | Inl err2 \<Rightarrow> if err2 = ParseError then Inr None else Inl err2)
          else Inl err)"

text \<open>The \<open>if/elif\<close> chain that tallies one entry.\<close>

definition tally :: "pylib \<Rightarrow> entry \<Rightarrow> media_counts \<Rightarrow> media_counts" where
  "tally L info mc =
     (let name_lower = py_lower L (filename info)
      in if endswith name_lower [''.png'', ''.jpg'', ''.jpeg'', ''.gif'', ''.svg'', ''.webp'']
         then mc\<lparr>images := images mc + 1\<rparr>
         else if endswith name_lower [''.mp3'', ''.wav'', ''.m4a'', ''.ogg'']
         then mc\<lparr>audio := audio mc + 1\<rparr>
         else if endswith name_lower [''.mp4'', ''.webm'', ''.mov'', ''.m4v'']
         then mc\<lparr>video := video mc + 1\<rparr>
         else if \<not> is_dir info \<and> \<not> endswith name_lower [''.xml'', ''.htm'', ''.html'', ''.json'']
         then mc\<lparr>other := other mc + 1\<rparr>
         else mc)"

text \<open>
  The rows one entry adds to the sink: the second half of the loop body. The call of
  \<open>parse_xml_bytes\<close> is in no \<open>try\<close> block, so what it raises leaves the loop.
\<close>

definition collect_entry ::
  "pylib \<Rightarrow> parsers \<Rightarrow> bool \<Rightarrow> entry \<Rightarrow> row list \<Rightarrow> error + row list" where
  "collect_entry L P skip_alttext info rows =
     (let name_lower = py_lower L (filename info)
      in if endswith name_lower [''.xml'', ''.htm'', ''.html'', ''.json''] \<and> \<not> is_dir info
         then
           (case content info of
              None \<Rightarrow> Inr rows
            | Some data \<Rightarrow>
                if endswith name_lower [''.json'']
                then (case json_loads P data of
                        None \<Rightarrow> Inr rows
                      | Some doc \<Rightarrow> Inr (extract_from_json L doc (filename info) rows))
                else (case parse_xml_bytes P data of
                        Inl err \<Rightarrow> Inl err
                      | Inr None \<Rightarrow> Inr rows
                      | Inr (Some root) \<Rightarrow>
                          Inr (walk_xml_collect L root (filename info) rows (\<not> skip_alttext))))
         else Inr rows)"

text \<open>One round of the loop over \<open>zf.infolist()\<close>, and the loop.\<close>

definition scan_entry ::
  "pylib \<Rightarrow> parsers \<Rightarrow> bool \<Rightarrow> row list \<times> media_counts \<Rightarrow> entry
     \<Rightarrow> error + row list \<times> media_counts" where
  "scan_entry L P skip_alttext st info =
     (let media = tally L info (snd st)
      in case collect_entry L P skip_alttext info (fst st) of
           Inl err \<Rightarrow> Inl err
         | Inr rows \<Rightarrow> Inr (rows, media))"

fun scan_entries ::
  "pylib \<Rightarrow> parsers \<Rightarrow> bool \<Rightarrow> row list \<times> media_counts \<Rightarrow> entry list
     \<Rightarrow> error + row list \<times> media_counts" where
  "scan_entries L P skip_alttext st [] = Inr st"
| "scan_entries L P skip_alttext st (info # infos) =
     (case scan_entry L P skip_alttext st info of
        Inl err \<Rightarrow> Inl err
      | Inr st' \<Rightarrow> scan_entries L P skip_alttext st' infos)"

text \<open>The deduplication loop with its \<open>seen\<close> set.\<close>

fun dedup_loop :: "row set \<Rightarrow> row list \<Rightarrow> row list \<Rightarrow> row list" where
  "dedup_loop seen out [] = out"
| "dedup_loop seen out (r # rows) =
     (if r \<in> seen then dedup_loop seen out rows
      else dedup_loop (insert r seen) (out @ [r]) rows)"

text \<open>The key of \<open>out.sort\<close>. \<open>list.sort\<close> is stable and ascending, and so is
  \<open>sort_key\<close>; tuples and strings compare lexicographically in both.\<close>

definition sort_rows :: "pylib \<Rightarrow> row list \<Rightarrow> row list" where
  "sort_rows L out = sort_key (\<lambda>r. (py_lower L (fst r), py_lower L (fst (snd r)))) out"

definition extract_rows_from_story ::
  "pylib \<Rightarrow> parsers \<Rightarrow> bytes \<Rightarrow> bool \<Rightarrow> error + row list \<times> media_counts" where
  "extract_rows_from_story L P story_bytes skip_alttext =
     (case zip_infolist P story_bytes of
        Inl err \<Rightarrow> Inl err
      | Inr infos \<Rightarrow>
          (case scan_entries L P skip_alttext
                  ([], \<lparr>images = 0, audio = 0, video = 0, other = 0\<rparr>) infos of
             Inl err \<Rightarrow> Inl err
           | Inr st \<Rightarrow>
               (let out = dedup_loop {} [] (fst st)
                in Inr (sort_rows L out, snd st))))"

text \<open>
  The same function in a run of the interpreter. CPython keeps \<open>seen\<close> in a hash
  table, and the hash of a string is salted anew in every process, so the layout of the
  table differs from one run to the next. A run is given by its hash function \<open>h\<close>; the
  table is the list of its members in the order of their hashes. The loop asks the
  table for membership and adds to it, as the source does.
\<close>

definition set_contains :: "row \<Rightarrow> row list \<Rightarrow> bool" where
  "set_contains key seen \<longleftrightarrow> key \<in> set seen"

definition set_add :: "(row \<Rightarrow> nat) \<Rightarrow> row \<Rightarrow> row list \<Rightarrow> row list" where
  "set_add h key seen = (if key \<in> set seen then seen else insort_key h key seen)"

fun dedup_run :: "(row \<Rightarrow> nat) \<Rightarrow> row list \<Rightarrow> row list \<Rightarrow> row list \<Rightarrow> row list" where
  "dedup_run h seen out [] = out"
| "dedup_run h seen out (r # rows) =
     (if set_contains r seen then dedup_run h seen out rows
      else dedup_run h (set_add h r seen) (out @ [r]) rows)"

definition extract_rows_run ::
  "(row \<Rightarrow> nat) \<Rightarrow> pylib \<Rightarrow> parsers \<Rightarrow> bytes \<Rightarrow> bool \<Rightarrow> error + row list \<times> media_counts" where
  "extract_rows_run h L P story_bytes skip_alttext =
     (case zip_infolist P story_bytes of
        Inl err \<Rightarrow> Inl err
      | Inr infos \<Rightarrow>
          (case scan_entries L P skip_alttext
                  ([], \<lparr>images = 0, audio = 0, video = 0, other = 0\<rparr>) infos of
             Inl err \<Rightarrow> Inl err
           | Inr st \<Rightarrow>
               (let out = dedup_run h [] [] (fst st)
                in Inr (sort_rows L out, snd st))))"

text \<open>The caller's filter \<open>[r for r in rows if len(r[2]) >= minlen]\<close>.\<close>

definition min_length_filter :: "nat \<Rightarrow> row list \<Rightarrow> row list" where
  "min_length_filter minlen rows = filter (\<lambda>r. minlen \<le> length (snd (snd r))) rows"

text \<open>
  The fallback as the specification words it, for comparison with \<open>parse_xml_bytes\<close>:
  every byte outside printable ASCII (0x20 to 0x7E) plus tab, LF and CR is removed.
\<close>

definition printable_ascii_only :: "bytes \<Rightarrow> bytes" where
  "printable_ascii_only data =
     filter (\<lambda>b. b = 9 \<or> b = 10 \<or> b = 13 \<or> (32 \<le> b \<and> b \<le> 126)) data"

section \<open>Translation-unit partitioner\<close>

text \<open>
  The splitter works on the same element trees. A compiled pattern is used only through
  \<open>p.search(t)\<close>, so a pattern is the set of strings it finds a match in.
\<close>

type_synonym pattern = "ustring \<Rightarrow> bool"

definition XLIFF_NS :: ustring where
  "XLIFF_NS = ustr ''urn:oasis:names:tc:xliff:document:1.2''"

definition q :: "ustring \<Rightarrow> ustring" where
  "q t = [123] @ XLIFF_NS @ [125] @ t"

text \<open>\<open>Element.findall(tag)\<close> and \<open>Element.find(tag)\<close> of the library: the direct
  children with that tag, and the first of them.\<close>

definition et_findall :: "elem \<Rightarrow> ustring \<Rightarrow> elem list" where
  "et_findall e t = filter (\<lambda>c. tag c = t) (children e)"

definition et_find :: "elem \<Rightarrow> ustring \<Rightarrow> elem option" where
  "et_find e t = List.find (\<lambda>c. tag c = t) (children e)"

definition findall :: "elem \<Rightarrow> ustring \<Rightarrow> elem list" where
  "findall e t =
     (let results = et_findall e (q t)
      in if results = [] then et_findall e t else results)"

definition find :: "elem \<Rightarrow> ustring \<Rightarrow> elem option" where
  "find e t = (case et_find e (q t) of None \<Rightarrow> et_find e t | Some node \<Rightarrow> Some node)"

definition iter_trans_units :: "elem \<Rightarrow> elem list" where
  "iter_trans_units root =
     concat (map (\<lambda>f. case find f (ustr ''body'') of
                         None \<Rightarrow> []
                       | Some body \<Rightarrow> findall body (ustr ''trans-unit''))
                 (findall root (ustr ''file'')))"

text \<open>\<open>Element.itertext()\<close>: the text, then for each child its own \<open>itertext\<close> and
  its tail; absent and empty strings are left out.\<close>

definition nonempty :: "ustring option \<Rightarrow> ustring list" where
  "nonempty t = (case t of None \<Rightarrow> [] | Some s \<Rightarrow> if s = [] then [] else [s])"

fun itertext :: "elem \<Rightarrow> ustring list" where
  "itertext (Elem t a x y cs) =
     nonempty x @ concat (map (\<lambda>c. itertext c @ nonempty (etail c)) cs)"

definition get_text_recursive :: "elem option \<Rightarrow> ustring" where
  "get_text_recursive e = (case e of None \<Rightarrow> [] | Some el \<Rightarrow> strip (concat (itertext el)))"

definition contexts_for_tu :: "elem \<Rightarrow> ustring list" where
  "contexts_for_tu tu =
     (let from_notes =
            concat (map (\<lambda>n. let t = get_text_recursive (Some n) in if t \<noteq> [] then [t] else [])
                        (findall tu (ustr ''note'')));
          from_contexts =
            concat (map (\<lambda>cg.
                      concat (map (\<lambda>c.
                                (let t = get_text_recursive (Some c) in if t \<noteq> [] then [t] else [])
                                @ filter (\<lambda>v. v \<noteq> []) (map snd (attrib c)))
                              (et_findall cg (ustr ''context'') @ et_findall cg (q (ustr ''context'')))))
                    (et_findall tu (ustr ''context-group'')
                     @ et_findall tu (q (ustr ''context-group''))));
          from_attrs =
            concat (map (\<lambda>key. case map_of (attrib tu) (ustr key) of
                                  None \<Rightarrow> []
                                | Some val \<Rightarrow> if val \<noteq> [] then [val] else [])
                        [''id'', ''resname'', ''res-id'', ''extradata'', ''x-articulate-part'']);
          texts = from_notes @ from_contexts @ from_attrs
      in filter (\<lambda>t. t \<noteq> []) (map strip texts))"

definition matches_any :: "ustring list \<Rightarrow> pattern list \<Rightarrow> bool" where
  "matches_any texts patterns = list_ex (\<lambda>t. list_ex (\<lambda>p. p t) patterns) texts"

text \<open>
  The source changes trees in place; the model rebuilds them. \<open>set_children\<close> replaces
  the child list of an element, \<open>upd_first\<close> changes the first list entry that
  satisfies a test (the object that \<open>find\<close> returned). \<open>resolved\<close> is the spelling of a
  tag that \<open>findall\<close> and \<open>find\<close> settle on: the qualified one if any child has it.
\<close>

definition set_children :: "elem \<Rightarrow> elem list \<Rightarrow> elem" where
  "set_children e cs = Elem (tag e) (attrib e) (etext e) (etail e) cs"

fun upd_first :: "('a \<Rightarrow> bool) \<Rightarrow> ('a \<Rightarrow> 'a) \<Rightarrow> 'a list \<Rightarrow> 'a list" where
  "upd_first P g [] = []"
| "upd_first P g (x # xs) = (if P x then g x # xs else x # upd_first P g xs)"

definition resolved :: "elem \<Rightarrow> ustring \<Rightarrow> ustring" where
  "resolved e t = (if et_findall e (q t) = [] then t else q t)"

definition is_trans_unit :: "elem \<Rightarrow> bool" where
  "is_trans_unit c \<longleftrightarrow> tag c \<in> {q (ustr ''trans-unit''), ustr ''trans-unit''}"

text \<open>One round of the loop of \<open>clone_shell\<close>: the body of a file loses its direct
  trans-unit children.\<close>

definition clear_body :: "elem \<Rightarrow> elem" where
  "clear_body f =
     set_children f
       (upd_first (\<lambda>b. tag b = resolved f (ustr ''body''))
          (\<lambda>body. set_children body (filter (\<lambda>tu. \<not> is_trans_unit tu) (children body)))
          (children f))"

definition clone_shell :: "elem \<Rightarrow> elem" where
  "clone_shell root =
     set_children root
       (map (\<lambda>f. if tag f = resolved root (ustr ''file'') then clear_body f else f)
            (children root))"

definition append_tu_to_output_shell :: "elem \<Rightarrow> elem \<Rightarrow> error + elem" where
  "append_tu_to_output_shell shell tu =
     (if list_ex (\<lambda>f. find f (ustr ''body'') \<noteq> None) (findall shell (ustr ''file''))
      then Inr (set_children shell
             (upd_first
                (\<lambda>f. tag f = resolved shell (ustr ''file'') \<and> find f (ustr ''body'') \<noteq> None)
                (\<lambda>f. set_children f
                        (upd_first (\<lambda>b. tag b = resolved f (ustr ''body''))
                           (\<lambda>body. set_children body (children body @ [tu]))
                           (children f)))
                (children shell)))
      else Inl RuntimeError)"

text \<open>The loop of \<open>filter_xliff\<close> over the units, with the two shells as its state.\<close>

fun filter_loop ::
  "pattern list \<Rightarrow> pattern list \<Rightarrow> elem list \<Rightarrow> elem \<times> elem \<Rightarrow> error + elem \<times> elem" where
  "filter_loop notes_patterns alt_patterns [] st = Inr st"
| "filter_loop notes_patterns alt_patterns (tu # tus) st =
     (let texts = contexts_for_tu tu;
          is_notes = matches_any texts notes_patterns;
          is_alt = matches_any texts alt_patterns
      in if is_notes
         then (case append_tu_to_output_shell (fst st) tu of
                 Inl err \<Rightarrow> Inl err
               | Inr notes_only \<Rightarrow>
                   filter_loop notes_patterns alt_patterns tus (notes_only, snd st))
         else if is_alt then filter_loop notes_patterns alt_patterns tus st
         else (case append_tu_to_output_shell (snd st) tu of
                 Inl err \<Rightarrow> Inl err
               | Inr main_no_notes_alt \<Rightarrow>
                   filter_loop notes_patterns alt_patterns tus (fst st, main_no_notes_alt)))"

definition filter_xliff :: "elem \<Rightarrow> pattern list \<Rightarrow> pattern list \<Rightarrow> error + elem \<times> elem" where
  "filter_xliff tree notes_patterns alt_patterns =
     filter_loop notes_patterns alt_patterns (iter_trans_units tree)
       (clone_shell tree, clone_shell tree)"

text \<open>
  The translation units a document holds where the splitter reads and clears them: the
  direct trans-unit children (in either spelling) of the body of each file.
\<close>

definition body_units :: "elem \<Rightarrow> elem list" where
  "body_units t =
     concat (map (\<lambda>f. case find f (ustr ''body'') of
                         None \<Rightarrow> []
                       | Some body \<Rightarrow> filter is_trans_unit (children body))
                 (findall t (ustr ''file'')))"









section \<open>A concrete runtime library for evaluation\<close>

text \<open>
  Closed evaluations need the three library functions at concrete inputs. \<open>py_sample\<close>
  gives what CPython computes on the inputs used in this theory:
  \<^item> \<open>unescape_refs\<close> decodes the references \<open>&amp; &lt; &gt; &quot; &apos; &nbsp;\<close> and
    copies every other character, as \<open>html.unescape\<close> does on a string whose
    ampersands all start one of these six references (in particular on a string with
    no ampersand, which \<open>html.unescape\<close> returns unchanged);
  \<^item> \<open>lower_ascii\<close> is \<open>str.lower\<close> on strings whose upper-case letters are ASCII;
  \<^item> \<open>alnum_sample\<close> is the alphanumeric table on the Latin-1 letters and on the
    Cyrillic letters U+0400-045F, all of which \<open>str.isalnum\<close> accepts.
\<close>

definition named_refs :: "(ustring \<times> nat) list" where
  "named_refs =
     [(ustr ''amp;'', 38), (ustr ''lt;'', 60), (ustr ''gt;'', 62),
      (ustr ''quot;'', 34), (ustr ''apos;'', 39), (ustr ''nbsp;'', 160)]"

function unescape_refs :: "ustring \<Rightarrow> ustring" where
  "unescape_refs [] = []"
| "unescape_refs (c # cs) =
     (if c = 38 then
        (case List.find (\<lambda>(nm, cp). prefix nm cs) named_refs of
           None \<Rightarrow> c # unescape_refs cs
         | Some (nm, cp) \<Rightarrow> cp # unescape_refs (drop (length nm) cs))
      else c # unescape_refs cs)"
  by pat_completeness auto
termination
  by (relation "measure length") auto

definition lower_ascii :: "ustring \<Rightarrow> ustring" where
  "lower_ascii s = map (\<lambda>c. if 65 \<le> c \<and> c \<le> 90 then c + 32 else c) s"

definition alnum_sample :: "nat \<Rightarrow> bool" where
  "alnum_sample c \<longleftrightarrow>
     (192 \<le> c \<and> c \<le> 214) \<or> (216 \<le> c \<and> c \<le> 246) \<or> (248 \<le> c \<and> c \<le> 255) \<or>
     (1024 \<le> c \<and> c \<le> 1119)"

definition py_sample :: pylib where
  "py_sample = \<lparr>py_unescape = unescape_refs, py_lower = lower_ascii, py_isalnum = alnum_sample\<rparr>"

text \<open>
  A small document for the partitioner, after the example of the specification: the
  first unit has a note that reads \<open>Slide Notes\<close>, the second a context attribute that
  reads \<open>AltText_img12\<close>, the third no hint. \<open>ex_doc\<close> is the document with the given
  units in its body; the two patterns are case-insensitive searches for \<open>notes\<close> and
  \<open>alttext\<close>.
\<close>

definition ex_unit1 :: elem where
  "ex_unit1 = Elem (ustr ''trans-unit'') [(ustr ''id'', ustr ''1'')] None None
     [Elem (ustr ''source'') [] (Some (ustr ''Hello'')) None [],
      Elem (ustr ''note'') [] (Some (ustr ''Slide Notes'')) None []]"

definition ex_unit2 :: elem where
  "ex_unit2 = Elem (ustr ''trans-unit'') [(ustr ''id'', ustr ''2'')] None None
     [Elem (ustr ''source'') [] (Some (ustr ''Logo'')) None [],
      Elem (ustr ''context-group'') [] None None
        [Elem (ustr ''context'') [(ustr ''context-type'', ustr ''AltText_img12'')]
           None None []]]"

definition ex_unit3 :: elem where
  "ex_unit3 = Elem (ustr ''trans-unit'') [(ustr ''id'', ustr ''3'')] None None
     [Elem (ustr ''source'') [] (Some (ustr ''Bye'')) None []]"

definition ex_doc :: "elem list \<Rightarrow> elem" where
  "ex_doc units = Elem (ustr ''xliff'') [(ustr ''version'', ustr ''1.2'')] None None
     [Elem (ustr ''file'') [] None None
        [Elem (ustr ''header'') [] None None [], Elem (ustr ''body'') [] None None units]]"

definition ex_notes :: "pattern list" where
  "ex_notes = [\<lambda>t. sublist (ustr ''notes'') (lower_ascii t)]"

definition ex_alt :: "pattern list" where
  "ex_alt = [\<lambda>t. sublist (ustr ''alttext'') (lower_ascii t)]"

section \<open>Evaluation and the recursive form of the stack loop\<close>

lemmas text_defs =
  ustr_def normalize_text_def strip_def is_space_def is_likely_human_text_def human_letter_def
  should_skip_text_def fullmatch_plus_def fullmatch_min_def is_word_def ascii_alnum_def
  hex_or_dash_def py_sample_def alnum_sample_def lower_ascii_def named_refs_def Let_def

lemma walk_rec_unfold:
  "walk_rec L f i path e =
     (if bare_name (tag e) \<in> SKIP_TAGS then []
      else node_rows L f i e path
           @ concat (map (walk_rec L f i (path @ [bare_name (tag e)])) (children e)))"
  by (cases e) simp

lemma walk_stack_eq:
  "walk_stack L f i stack out
     = out @ concat (map (\<lambda>(e, p). walk_rec L f i p e) (rev stack))"
proof (induction L f i stack out rule: walk_stack.induct)
  case (1 L f i stack out)
  show ?case
  proof (cases "stack = []")
    case True
    then show ?thesis by (subst walk_stack.simps) simp
  next
    case False
    then obtain st e p where st: "stack = st @ [(e, p)]"
      by (metis append_butlast_last_id surj_pair)
    show ?thesis
    proof (cases "bare_name (tag e) \<in> SKIP_TAGS")
      case True
      with 1(1) [OF False] st show ?thesis
        by (subst walk_stack.simps) (simp add: walk_rec_unfold [of _ _ _ _ e])
    next
      case False
      with 1(2) [OF \<open>stack \<noteq> []\<close>] st show ?thesis
        by (subst walk_stack.simps)
           (simp add: walk_rec_unfold [of _ _ _ _ e] rev_map comp_def)
    qed
  qed
qed

lemma walk_xml_collect_rec:
  "walk_xml_collect L root f out i = out @ walk_rec L f i [] root"
  by (simp add: walk_xml_collect_def walk_stack_eq)

lemmas walker_defs =
  walk_xml_collect_rec node_rows_def text_rows_def attr_rows_def tail_rows_def
  bare_attrs_def bare_name_def SKIP_TAGS_def NOISE_ATTRS_def TRANSLATABLE_ATTRS_def
  LIKELY_TEXT_TAGS_def loc_path_def alttext_scan_def

lemmas scan_defs =
  extract_rows_from_story_def scan_entry_def collect_entry_def tally_def endswith_def
  parse_xml_bytes_def sort_rows_def min_length_filter_def suffix_to_prefix

section \<open>Properties of the markup walker\<close>

text \<open>
  C10. An element whose namespace-stripped tag is in \<open>SKIP_TAGS\<close> contributes nothing:
  when the loop pops it, the run continues exactly as if the element had never been on
  the stack. No row is appended for its text, its attributes or its tail, and none of
  its children is pushed, so no descendant is ever visited. In particular a walk that
  starts at such an element returns the sink unchanged.
\<close>

theorem skip_tag_emits_nothing:
  assumes "bare_name (tag e) \<in> SKIP_TAGS"
  shows "walk_stack L file_id include_alttext (stack @ [(e, path)]) out_rows
           = walk_stack L file_id include_alttext stack out_rows
         \<and> walk_xml_collect L e file_id out_rows include_alttext = out_rows"
proof
  show "walk_stack L file_id include_alttext (stack @ [(e, path)]) out_rows
          = walk_stack L file_id include_alttext stack out_rows"
    using assms by (subst walk_stack.simps) simp
  have "walk_stack L file_id include_alttext ([] @ [(e, [])]) out_rows
          = walk_stack L file_id include_alttext [] out_rows"
    using assms by (subst walk_stack.simps) simp
  then show "walk_xml_collect L e file_id out_rows include_alttext = out_rows"
    by (simp add: walk_xml_collect_def walk_stack.simps [of _ _ _ "[]"])
qed

theorem skip_tag_emits_nothing_witness:
  "bare_name (tag (Elem (ustr ''{http://www.w3.org/2000/svg}style'') [(ustr ''title'', ustr ''Hello'')]
       (Some (ustr ''Hello'')) (Some (ustr ''World''))
       [Elem (ustr ''p'') [] (Some (ustr ''Text'')) None []])) \<in> SKIP_TAGS
   \<and> walk_xml_collect py_sample
       (Elem (ustr ''{http://www.w3.org/2000/svg}style'') [(ustr ''title'', ustr ''Hello'')]
          (Some (ustr ''Hello'')) (Some (ustr ''World''))
          [Elem (ustr ''p'') [] (Some (ustr ''Text'')) None []])
       (ustr ''a.xml'') [] True = []"
proof -
  have h: "bare_name (tag (Elem (ustr ''{http://www.w3.org/2000/svg}style'') [(ustr ''title'', ustr ''Hello'')]
       (Some (ustr ''Hello'')) (Some (ustr ''World''))
       [Elem (ustr ''p'') [] (Some (ustr ''Text'')) None []])) \<in> SKIP_TAGS"
    by (simp add: bare_name_def SKIP_TAGS_def ustr_def)
  show ?thesis
    using h skip_tag_emits_nothing [OF h, of py_sample "ustr ''a.xml''" True "[]" "[]" "[]"]
    by simp
qed

text \<open>
  The flag \<open>include_alttext\<close> has no effect on what the walker returns: the loop it
  guards only reads.
\<close>

lemma include_alttext_ignored:
  "walk_xml_collect L root file_id out_rows False = walk_xml_collect L root file_id out_rows True"
proof -
  have "walk_rec L file_id False path e = walk_rec L file_id True path e" for path e
    by (induction L file_id False path e rule: walk_rec.induct)
       (simp add: node_rows_def Let_def cong: map_cong)
  then show ?thesis by (simp add: walk_xml_collect_rec)
qed

text \<open>
  C2 (the code departs from the claim). With the flag false, an element
  \<open><shape title="Logo.AltText"><p>Hello</p></shape>\<close> still yields the row of the
  attribute whose value holds the marker \<open>.AltText\<close>; the child is visited, as the
  claim says. The claim wants the attribute's row suppressed.
\<close>

theorem alttext_attribute_row_not_suppressed:
  "walk_xml_collect py_sample
     (Elem (ustr ''shape'') [(ustr ''title'', ustr ''Logo.AltText'')] None None
        [Elem (ustr ''p'') [] (Some (ustr ''Hello'')) None []])
     (ustr ''story.xml'') [] False
   = [(ustr ''story.xml'', ustr ''/shape/@title'', ustr ''Logo.AltText''),
      (ustr ''story.xml'', ustr ''/shape/p/#text'', ustr ''Hello'')]"
  by (simp add: walker_defs text_defs)

section \<open>Location paths of the hierarchical data walker\<close>

text \<open>
  C5 (the code departs from the claim). For the document
  \<open>{"slide1": {"title": "Hello"}, "slide2": {"title": "Hello"}}\<close> both records carry
  the path \<open>$.title\<close>: the key of the enclosing mapping is not part of the path, where
  the claim wants \<open>$.slide1.title\<close> and \<open>$.slide2.title\<close>.
\<close>

theorem nested_key_path_lacks_ancestors:
  "extract_from_json py_sample
     (JDict [(ustr ''slide1'', JDict [(ustr ''title'', JStr (ustr ''Hello''))]),
             (ustr ''slide2'', JDict [(ustr ''title'', JStr (ustr ''Hello''))])])
     (ustr ''data.json'') []
   = [(ustr ''data.json'', ustr ''$.title'', ustr ''Hello''),
      (ustr ''data.json'', ustr ''$.title'', ustr ''Hello'')]"
  by (simp add: text_defs NOISE_ATTRS_def)

section \<open>Media tally\<close>

lemma endswith_disjoint:
  assumes "list_all (\<lambda>a. list_all (\<lambda>b. \<not> suffix (ustr a) (ustr b) \<and> \<not> suffix (ustr b) (ustr a)) B) A"
    and "endswith s A"
  shows "\<not> endswith s B"
proof
  assume "endswith s B"
  with assms(2) obtain a b
    where ab: "a \<in> set A" "b \<in> set B" "suffix (ustr a) s" "suffix (ustr b) s"
    by (auto simp: endswith_def list_ex_iff)
  from ab(3,4) have "suffix (ustr a) (ustr b) \<or> suffix (ustr b) (ustr a)"
    using suffix_same_cases by blast
  with assms(1) ab(1,2) show False by (auto simp: list_all_iff)
qed

lemma image_not_audio:
  "endswith s [''.png'', ''.jpg'', ''.jpeg'', ''.gif'', ''.svg'', ''.webp'']
   \<Longrightarrow> \<not> endswith s [''.mp3'', ''.wav'', ''.m4a'', ''.ogg'']"
  by (erule endswith_disjoint [rotated]) (simp add: ustr_def suffix_to_prefix)

lemma image_not_video:
  "endswith s [''.png'', ''.jpg'', ''.jpeg'', ''.gif'', ''.svg'', ''.webp'']
   \<Longrightarrow> \<not> endswith s [''.mp4'', ''.webm'', ''.mov'', ''.m4v'']"
  by (erule endswith_disjoint [rotated]) (simp add: ustr_def suffix_to_prefix)

lemma audio_not_video:
  "endswith s [''.mp3'', ''.wav'', ''.m4a'', ''.ogg'']
   \<Longrightarrow> \<not> endswith s [''.mp4'', ''.webm'', ''.mov'', ''.m4v'']"
  by (erule endswith_disjoint [rotated]) (simp add: ustr_def suffix_to_prefix)

lemma text_not_media:
  assumes "endswith s [''.xml'', ''.htm'', ''.html'', ''.json'']"
  shows "\<not> endswith s [''.png'', ''.jpg'', ''.jpeg'', ''.gif'', ''.svg'', ''.webp'']"
    and "\<not> endswith s [''.mp3'', ''.wav'', ''.m4a'', ''.ogg'']"
    and "\<not> endswith s [''.mp4'', ''.webm'', ''.mov'', ''.m4v'']"
  using assms by - (erule endswith_disjoint [rotated], simp add: ustr_def suffix_to_prefix)+

lemma tally_text_entry:
  "endswith (py_lower L (filename info)) [''.xml'', ''.htm'', ''.html'', ''.json'']
   \<Longrightarrow> tally L info mc = mc"
  using text_not_media [of "py_lower L (filename info)"] by (simp add: tally_def Let_def)

lemma tally_monotone:
  "images mc \<le> images (tally L info mc) \<and> audio mc \<le> audio (tally L info mc)
   \<and> video mc \<le> video (tally L info mc) \<and> other mc \<le> other (tally L info mc)"
  by (simp add: tally_def Let_def)

lemma scan_monotone:
  "scan_entries L P k st infos = Inr st' \<Longrightarrow>
   images (snd st) \<le> images (snd st') \<and> audio (snd st) \<le> audio (snd st')
   \<and> video (snd st) \<le> video (snd st') \<and> other (snd st) \<le> other (snd st')"
proof (induction infos arbitrary: st)
  case Nil
  then show ?case by simp
next
  case (Cons info infos)
  from Cons.prems obtain st1 where st1: "scan_entry L P k st info = Inr st1"
    and rest: "scan_entries L P k st1 infos = Inr st'"
    by (auto split: sum.splits)
  from st1 have "snd st1 = tally L info (snd st)"
    by (auto simp: scan_entry_def Let_def split: sum.splits)
  with Cons.IH [OF rest] tally_monotone [of "snd st" L info] show ?case
    by auto
qed

text \<open>
  C9 as stated fails: the non-directory entry \<open>slide.xml\<close> has none of the image, audio
  or video extensions, and the scan does not count it under \<open>other\<close>.
\<close>

theorem markup_entry_not_counted_as_other:
  "\<not> is_dir \<lparr>filename = ustr ''slide.xml'', is_dir = False, content = None\<rparr>
   \<and> \<not> endswith (py_lower py_sample
          (filename \<lparr>filename = ustr ''slide.xml'', is_dir = False, content = None\<rparr>))
        [''.png'', ''.jpg'', ''.jpeg'', ''.gif'', ''.svg'', ''.webp'',
         ''.mp3'', ''.wav'', ''.m4a'', ''.ogg'', ''.mp4'', ''.webm'', ''.mov'', ''.m4v'']
   \<and> other (tally py_sample \<lparr>filename = ustr ''slide.xml'', is_dir = False, content = None\<rparr>
               \<lparr>images = 0, audio = 0, video = 0, other = 0\<rparr>)
       \<noteq> other \<lparr>images = 0, audio = 0, video = 0, other = 0\<rparr> + 1"
  by (simp add: tally_def endswith_def suffix_to_prefix text_defs)

text \<open>
  C9, amended. With \<open>n\<close> the lower-cased entry name: an image extension adds one to
  \<open>images\<close> and changes nothing else, likewise the audio extensions for \<open>audio\<close> and
  the video extensions for \<open>video\<close>; an entry with none of these extensions adds one to
  \<open>other\<close> when it is not a directory and its name does not end in \<open>.xml\<close>, \<open>.htm\<close>,
  \<open>.html\<close> or \<open>.json\<close>; an entry with one of these four extensions, and a directory
  without a media extension, leave the tally as it is. No count ever goes down, for
  one entry and over a whole scan (a scan that an exception ends has no tally at all).
\<close>

theorem tally_by_extension:
  "(endswith (py_lower L (filename info)) [''.png'', ''.jpg'', ''.jpeg'', ''.gif'', ''.svg'', ''.webp'']
      \<longrightarrow> tally L info mc = mc\<lparr>images := images mc + 1\<rparr>)
   \<and> (endswith (py_lower L (filename info)) [''.mp3'', ''.wav'', ''.m4a'', ''.ogg'']
      \<longrightarrow> tally L info mc = mc\<lparr>audio := audio mc + 1\<rparr>)
   \<and> (endswith (py_lower L (filename info)) [''.mp4'', ''.webm'', ''.mov'', ''.m4v'']
      \<longrightarrow> tally L info mc = mc\<lparr>video := video mc + 1\<rparr>)
   \<and> (\<not> endswith (py_lower L (filename info))
            [''.png'', ''.jpg'', ''.jpeg'', ''.gif'', ''.svg'', ''.webp'']
        \<and> \<not> endswith (py_lower L (filename info)) [''.mp3'', ''.wav'', ''.m4a'', ''.ogg'']
        \<and> \<not> endswith (py_lower L (filename info)) [''.mp4'', ''.webm'', ''.mov'', ''.m4v'']
        \<and> \<not> endswith (py_lower L (filename info)) [''.xml'', ''.htm'', ''.html'', ''.json'']
        \<and> \<not> is_dir info
      \<longrightarrow> tally L info mc = mc\<lparr>other := other mc + 1\<rparr>)
   \<and> (endswith (py_lower L (filename info)) [''.xml'', ''.htm'', ''.html'', ''.json'']
      \<longrightarrow> tally L info mc = mc)
   \<and> (\<not> endswith (py_lower L (filename info))
            [''.png'', ''.jpg'', ''.jpeg'', ''.gif'', ''.svg'', ''.webp'']
        \<and> \<not> endswith (py_lower L (filename info)) [''.mp3'', ''.wav'', ''.m4a'', ''.ogg'']
        \<and> \<not> endswith (py_lower L (filename info)) [''.mp4'', ''.webm'', ''.mov'', ''.m4v'']
        \<and> is_dir info
      \<longrightarrow> tally L info mc = mc)
   \<and> images mc \<le> images (tally L info mc) \<and> audio mc \<le> audio (tally L info mc)
   \<and> video mc \<le> video (tally L info mc) \<and> other mc \<le> other (tally L info mc)
   \<and> (scan_entries L P k st infos = Inr st'
      \<longrightarrow> images (snd st) \<le> images (snd st') \<and> audio (snd st) \<le> audio (snd st')
          \<and> video (snd st) \<le> video (snd st') \<and> other (snd st) \<le> other (snd st'))"
proof -
  have one: "(endswith (py_lower L (filename info)) [''.png'', ''.jpg'', ''.jpeg'', ''.gif'', ''.svg'', ''.webp'']
      \<longrightarrow> tally L info mc = mc\<lparr>images := images mc + 1\<rparr>)
   \<and> (endswith (py_lower L (filename info)) [''.mp3'', ''.wav'', ''.m4a'', ''.ogg'']
      \<longrightarrow> tally L info mc = mc\<lparr>audio := audio mc + 1\<rparr>)
   \<and> (endswith (py_lower L (filename info)) [''.mp4'', ''.webm'', ''.mov'', ''.m4v'']
      \<longrightarrow> tally L info mc = mc\<lparr>video := video mc + 1\<rparr>)"
    using image_not_audio image_not_video audio_not_video
    by (auto simp: tally_def Let_def)
  have two: "(\<not> endswith (py_lower L (filename info))
            [''.png'', ''.jpg'', ''.jpeg'', ''.gif'', ''.svg'', ''.webp'']
        \<and> \<not> endswith (py_lower L (filename info)) [''.mp3'', ''.wav'', ''.m4a'', ''.ogg'']
        \<and> \<not> endswith (py_lower L (filename info)) [''.mp4'', ''.webm'', ''.mov'', ''.m4v'']
        \<and> \<not> endswith (py_lower L (filename info)) [''.xml'', ''.htm'', ''.html'', ''.json'']
        \<and> \<not> is_dir info
      \<longrightarrow> tally L info mc = mc\<lparr>other := other mc + 1\<rparr>)
   \<and> (\<not> endswith (py_lower L (filename info))
            [''.png'', ''.jpg'', ''.jpeg'', ''.gif'', ''.svg'', ''.webp'']
        \<and> \<not> endswith (py_lower L (filename info)) [''.mp3'', ''.wav'', ''.m4a'', ''.ogg'']
        \<and> \<not> endswith (py_lower L (filename info)) [''.mp4'', ''.webm'', ''.mov'', ''.m4v'']
        \<and> is_dir info
      \<longrightarrow> tally L info mc = mc)"
    by (simp add: tally_def Let_def)
  show ?thesis
    using one two tally_text_entry [of L info mc] tally_monotone [of mc L info]
      scan_monotone [of L P k st infos st']
    by blast
qed

theorem tally_by_extension_witness:
  "(endswith (py_lower py_sample (filename \<lparr>filename = ustr ''media/Logo.PNG'', is_dir = False, content = None\<rparr>))
      [''.png'', ''.jpg'', ''.jpeg'', ''.gif'', ''.svg'', ''.webp'']
    \<and> tally py_sample \<lparr>filename = ustr ''media/Logo.PNG'', is_dir = False, content = None\<rparr>
          \<lparr>images = 2, audio = 0, video = 0, other = 5\<rparr>
        = \<lparr>images = 3, audio = 0, video = 0, other = 5\<rparr>)
   \<and> (endswith (py_lower py_sample (filename \<lparr>filename = ustr ''intro.mp3'', is_dir = False, content = None\<rparr>))
      [''.mp3'', ''.wav'', ''.m4a'', ''.ogg'']
    \<and> tally py_sample \<lparr>filename = ustr ''intro.mp3'', is_dir = False, content = None\<rparr>
          \<lparr>images = 2, audio = 0, video = 0, other = 5\<rparr>
        = \<lparr>images = 2, audio = 1, video = 0, other = 5\<rparr>)
   \<and> (endswith (py_lower py_sample (filename \<lparr>filename = ustr ''clip.m4v'', is_dir = False, content = None\<rparr>))
      [''.mp4'', ''.webm'', ''.mov'', ''.m4v'']
    \<and> tally py_sample \<lparr>filename = ustr ''clip.m4v'', is_dir = False, content = None\<rparr>
          \<lparr>images = 2, audio = 0, video = 0, other = 5\<rparr>
        = \<lparr>images = 2, audio = 0, video = 1, other = 5\<rparr>)
   \<and> (\<not> is_dir \<lparr>filename = ustr ''story.bin'', is_dir = False, content = None\<rparr>
    \<and> tally py_sample \<lparr>filename = ustr ''story.bin'', is_dir = False, content = None\<rparr>
          \<lparr>images = 2, audio = 0, video = 0, other = 5\<rparr>
        = \<lparr>images = 2, audio = 0, video = 0, other = 6\<rparr>)
   \<and> (endswith (py_lower py_sample (filename \<lparr>filename = ustr ''slide.xml'', is_dir = False, content = None\<rparr>))
      [''.xml'', ''.htm'', ''.html'', ''.json'']
    \<and> tally py_sample \<lparr>filename = ustr ''slide.xml'', is_dir = False, content = None\<rparr>
          \<lparr>images = 2, audio = 0, video = 0, other = 5\<rparr>
        = \<lparr>images = 2, audio = 0, video = 0, other = 5\<rparr>)
   \<and> (is_dir \<lparr>filename = ustr ''media/'', is_dir = True, content = None\<rparr>
    \<and> tally py_sample \<lparr>filename = ustr ''media/'', is_dir = True, content = None\<rparr>
          \<lparr>images = 2, audio = 0, video = 0, other = 5\<rparr>
        = \<lparr>images = 2, audio = 0, video = 0, other = 5\<rparr>)
   \<and> (scan_entries py_sample
         \<lparr>zip_infolist = (\<lambda>b. Inl BadZipFile), et_fromstring = (\<lambda>d. Inl ParseError),
          json_loads = (\<lambda>b. None)\<rparr> True
         ([], \<lparr>images = 2, audio = 0, video = 0, other = 5\<rparr>)
         [\<lparr>filename = ustr ''media/Logo.PNG'', is_dir = False, content = None\<rparr>,
          \<lparr>filename = ustr ''story.bin'', is_dir = False, content = None\<rparr>]
       = Inr ([], \<lparr>images = 3, audio = 0, video = 0, other = 6\<rparr>)
    \<and> images (snd ([] :: row list, \<lparr>images = 2, audio = 0, video = 0, other = 5\<rparr>))
        \<le> images (snd ([] :: row list, \<lparr>images = 3, audio = 0, video = 0, other = 6\<rparr>)))"
  using
    tally_by_extension [where L = py_sample
      and info = "\<lparr>filename = ustr ''media/Logo.PNG'', is_dir = False, content = None\<rparr>"
      and mc = "\<lparr>images = 2, audio = 0, video = 0, other = 5\<rparr>"
      and P = "\<lparr>zip_infolist = (\<lambda>b. Inl BadZipFile), et_fromstring = (\<lambda>d. Inl ParseError),
          json_loads = (\<lambda>b. None)\<rparr>"
      and k = True
      and st = "([], \<lparr>images = 2, audio = 0, video = 0, other = 5\<rparr>)"
      and infos = "[\<lparr>filename = ustr ''media/Logo.PNG'', is_dir = False, content = None\<rparr>,
          \<lparr>filename = ustr ''story.bin'', is_dir = False, content = None\<rparr>]"
      and st' = "([], \<lparr>images = 3, audio = 0, video = 0, other = 6\<rparr>)"]
    tally_by_extension [of py_sample "\<lparr>filename = ustr ''intro.mp3'', is_dir = False, content = None\<rparr>"
      "\<lparr>images = 2, audio = 0, video = 0, other = 5\<rparr>"]
    tally_by_extension [of py_sample "\<lparr>filename = ustr ''clip.m4v'', is_dir = False, content = None\<rparr>"
      "\<lparr>images = 2, audio = 0, video = 0, other = 5\<rparr>"]
    tally_by_extension [of py_sample "\<lparr>filename = ustr ''story.bin'', is_dir = False, content = None\<rparr>"
      "\<lparr>images = 2, audio = 0, video = 0, other = 5\<rparr>"]
    tally_by_extension [of py_sample "\<lparr>filename = ustr ''slide.xml'', is_dir = False, content = None\<rparr>"
      "\<lparr>images = 2, audio = 0, video = 0, other = 5\<rparr>"]
    tally_by_extension [of py_sample "\<lparr>filename = ustr ''media/'', is_dir = True, content = None\<rparr>"
      "\<lparr>images = 2, audio = 0, video = 0, other = 5\<rparr>"]
  by (simp add: endswith_def suffix_to_prefix text_defs scan_entry_def collect_entry_def
      tally_def)

section \<open>Parse fallback\<close>

lemma sub_runs_delete: "sub_runs P [] xs = filter (\<lambda>x. \<not> P x) xs"
  by (induction P "[] :: 'a list" xs rule: sub_runs.induct) simp_all

lemma stripped_byte_iff: "\<not> stripped_byte b \<longleftrightarrow> b = 9 \<or> b = 10 \<or> b = 13 \<or> 32 \<le> b"
proof -
  have "b \<le> 255"
    using unsigned_less [of b, where ?'a = nat] by (simp add: word_le_nat_alt)
  then show ?thesis by (simp add: stripped_byte_def)
qed

lemma scan_entries_append:
  "scan_entries L P k st (xs @ ys) =
     (case scan_entries L P k st xs of
        Inl err \<Rightarrow> Inl err
      | Inr st' \<Rightarrow> scan_entries L P k st' ys)"
  by (induction xs arbitrary: st) (auto split: sum.splits)

text \<open>
  C6 as stated fails. The bytes \<open><a>\x01\xE9</a>\<close> do not parse; the retry runs on
  \<open><a>\xE9</a>\<close> (only the control byte is removed), which does not parse either, so
  the entry has no root. The policy of the claim would retry on \<open><a></a>\<close>, which
  parses. The parser here accepts exactly \<open><a></a>\<close> and answers every other input
  with a parse error.
\<close>

theorem retry_keeps_high_bytes:
  "parse_xml_bytes
     \<lparr>zip_infolist = (\<lambda>b. Inl BadZipFile),
      et_fromstring = (\<lambda>d. if d = [60, 97, 62, 60, 47, 97, 62]
                            then Inr (Elem (ustr ''a'') [] None None []) else Inl ParseError),
      json_loads = (\<lambda>b. None)\<rparr>
     [60, 97, 62, 1, 233, 60, 47, 97, 62] = Inr None
   \<and> et_fromstring
     \<lparr>zip_infolist = (\<lambda>b. Inl BadZipFile),
      et_fromstring = (\<lambda>d. if d = [60, 97, 62, 60, 47, 97, 62]
                            then Inr (Elem (ustr ''a'') [] None None []) else Inl ParseError),
      json_loads = (\<lambda>b. None)\<rparr>
     (printable_ascii_only [60, 97, 62, 1, 233, 60, 47, 97, 62])
     = Inr (Elem (ustr ''a'') [] None None [])"
  by (simp add: parse_xml_bytes_def printable_ascii_only_def stripped_byte_def sub_runs_delete
      word_le_nat_alt)

text \<open>
  C6, amended. A first parse that succeeds is the result. When the first parse ends in
  a parse error, the parser runs once more, on the input without the bytes 0x00-0x08,
  0x0B, 0x0C and 0x0E-0x1F (every byte other than tab, LF, CR and 0x20-0xFF; the bytes
  from 0x7F on are kept), and the outcome of that second call decides: its root is the
  result, its parse error means no root. When both calls end in a parse error for a
  markup entry (a non-directory entry whose lower-cased name ends in \<open>.xml\<close>, \<open>.htm\<close>
  or \<open>.html\<close>), the entry leaves the rows and the tally as they were, and the scan
  goes on with the entries after it as if the entry were absent.
\<close>

theorem parse_retry_once:
  "(et_fromstring P data = Inr root \<longrightarrow> parse_xml_bytes P data = Inr (Some root))
   \<and> (et_fromstring P data = Inl ParseError
      \<longrightarrow> parse_xml_bytes P data =
            (case et_fromstring P (filter (\<lambda>b. b = 9 \<or> b = 10 \<or> b = 13 \<or> 32 \<le> b) data) of
               Inr root2 \<Rightarrow> Inr (Some root2)
             | Inl err \<Rightarrow> if err = ParseError then Inr None else Inl err))
   \<and> (endswith (py_lower L (filename info)) [''.xml'', ''.htm'', ''.html'']
      \<and> \<not> is_dir info \<and> content info = Some data
      \<and> et_fromstring P data = Inl ParseError
      \<and> et_fromstring P (filter (\<lambda>b. b = 9 \<or> b = 10 \<or> b = 13 \<or> 32 \<le> b) data)
          = Inl ParseError
      \<longrightarrow> parse_xml_bytes P data = Inr None
          \<and> scan_entry L P skip_alttext st info = Inr st
          \<and> scan_entries L P skip_alttext st0 (before @ info # after)
              = scan_entries L P skip_alttext st0 (before @ after))"
proof -
  have clean: "sub_runs stripped_byte [] data
                 = filter (\<lambda>b. b = 9 \<or> b = 10 \<or> b = 13 \<or> 32 \<le> b) data"
    by (simp add: sub_runs_delete stripped_byte_iff)
  have first: "parse_xml_bytes P data = Inr (Some root)" if "et_fromstring P data = Inr root"
    using that by (simp add: parse_xml_bytes_def)
  have second: "parse_xml_bytes P data =
            (case et_fromstring P (filter (\<lambda>b. b = 9 \<or> b = 10 \<or> b = 13 \<or> 32 \<le> b) data) of
               Inr root2 \<Rightarrow> Inr (Some root2)
             | Inl err \<Rightarrow> if err = ParseError then Inr None else Inl err)"
    if "et_fromstring P data = Inl ParseError"
    using that by (simp add: parse_xml_bytes_def clean Let_def)
  have skip: "parse_xml_bytes P data = Inr None \<and> scan_entry L P skip_alttext st' info = Inr st'"
    if ext: "endswith (py_lower L (filename info)) [''.xml'', ''.htm'', ''.html'']"
      and nd: "\<not> is_dir info" and c: "content info = Some data"
      and f1: "et_fromstring P data = Inl ParseError"
      and f2: "et_fromstring P (filter (\<lambda>b. b = 9 \<or> b = 10 \<or> b = 13 \<or> 32 \<le> b) data)
                 = Inl ParseError"
    for st'
  proof -
    from ext have ext4: "endswith (py_lower L (filename info)) [''.xml'', ''.htm'', ''.html'', ''.json'']"
      by (auto simp: endswith_def)
    have nj: "\<not> endswith (py_lower L (filename info)) [''.json'']"
      using ext by (rule endswith_disjoint [rotated]) (simp add: ustr_def suffix_to_prefix)
    have none: "parse_xml_bytes P data = Inr None" using second [OF f1] f2 by simp
    then have "collect_entry L P skip_alttext info (fst st') = Inr (fst st')"
      using ext4 nj nd c by (simp add: collect_entry_def Let_def)
    moreover have "tally L info (snd st') = snd st'"
      using ext4 by (rule tally_text_entry)
    ultimately show ?thesis using none by (simp add: scan_entry_def)
  qed
  have cont: "scan_entries L P skip_alttext st0 (before @ info # after)
              = scan_entries L P skip_alttext st0 (before @ after)"
    if "\<And>st'. scan_entry L P skip_alttext st' info = Inr st'"
    using that by (simp add: scan_entries_append split: sum.splits)
  show ?thesis using first second skip cont by simp
qed

theorem parse_retry_once_witness:
  "(et_fromstring
       \<lparr>zip_infolist = (\<lambda>b. Inl BadZipFile),
        et_fromstring = (\<lambda>d. if d = [60, 97, 47, 62]
                              then Inr (Elem (ustr ''a'') [] None None []) else Inl ParseError),
        json_loads = (\<lambda>b. None)\<rparr> [60, 97, 47, 62]
      = Inr (Elem (ustr ''a'') [] None None [])
    \<and> parse_xml_bytes
       \<lparr>zip_infolist = (\<lambda>b. Inl BadZipFile),
        et_fromstring = (\<lambda>d. if d = [60, 97, 47, 62]
                              then Inr (Elem (ustr ''a'') [] None None []) else Inl ParseError),
        json_loads = (\<lambda>b. None)\<rparr> [60, 97, 47, 62]
      = Inr (Some (Elem (ustr ''a'') [] None None [])))
   \<and> (et_fromstring
       \<lparr>zip_infolist = (\<lambda>b. Inl BadZipFile),
        et_fromstring = (\<lambda>d. if d = [60, 97, 47, 62]
                              then Inr (Elem (ustr ''a'') [] None None []) else Inl ParseError),
        json_loads = (\<lambda>b. None)\<rparr> [60, 97, 1, 47, 62]
      = Inl ParseError
    \<and> filter (\<lambda>b. b = 9 \<or> b = 10 \<or> b = 13 \<or> 32 \<le> b) [60, 97, 1, 47, 62 :: 8 word]
      = [60, 97, 47, 62]
    \<and> parse_xml_bytes
       \<lparr>zip_infolist = (\<lambda>b. Inl BadZipFile),
        et_fromstring = (\<lambda>d. if d = [60, 97, 47, 62]
                              then Inr (Elem (ustr ''a'') [] None None []) else Inl ParseError),
        json_loads = (\<lambda>b. None)\<rparr> [60, 97, 1, 47, 62]
      = Inr (Some (Elem (ustr ''a'') [] None None [])))
   \<and> (endswith (py_lower py_sample
         (filename \<lparr>filename = ustr ''Slide1.XML'', is_dir = False, content = Some [60, 97, 1, 233]\<rparr>))
       [''.xml'', ''.htm'', ''.html'']
    \<and> \<not> is_dir \<lparr>filename = ustr ''Slide1.XML'', is_dir = False, content = Some [60, 97, 1, 233]\<rparr>
    \<and> content \<lparr>filename = ustr ''Slide1.XML'', is_dir = False, content = Some [60, 97, 1, 233]\<rparr>
        = Some [60, 97, 1, 233]
    \<and> et_fromstring
       \<lparr>zip_infolist = (\<lambda>b. Inl BadZipFile), et_fromstring = (\<lambda>d. Inl ParseError),
        json_loads = (\<lambda>b. None)\<rparr> [60, 97, 1, 233] = Inl ParseError
    \<and> et_fromstring
       \<lparr>zip_infolist = (\<lambda>b. Inl BadZipFile), et_fromstring = (\<lambda>d. Inl ParseError),
        json_loads = (\<lambda>b. None)\<rparr>
       (filter (\<lambda>b. b = 9 \<or> b = 10 \<or> b = 13 \<or> 32 \<le> b) [60, 97, 1, 233]) = Inl ParseError
    \<and> scan_entry py_sample
       \<lparr>zip_infolist = (\<lambda>b. Inl BadZipFile), et_fromstring = (\<lambda>d. Inl ParseError),
        json_loads = (\<lambda>b. None)\<rparr> True
       ([(ustr ''a.xml'', ustr ''/p/#text'', ustr ''Hello'')],
        \<lparr>images = 1, audio = 0, video = 0, other = 0\<rparr>)
       \<lparr>filename = ustr ''Slide1.XML'', is_dir = False, content = Some [60, 97, 1, 233]\<rparr>
     = Inr ([(ustr ''a.xml'', ustr ''/p/#text'', ustr ''Hello'')],
        \<lparr>images = 1, audio = 0, video = 0, other = 0\<rparr>))"
  using
    parse_retry_once [where
      P = "\<lparr>zip_infolist = (\<lambda>b. Inl BadZipFile),
        et_fromstring = (\<lambda>d. if d = [60, 97, 47, 62]
                              then Inr (Elem (ustr ''a'') [] None None []) else Inl ParseError),
        json_loads = (\<lambda>b. None)\<rparr>"
      and data = "[60, 97, 47, 62]" and root = "Elem (ustr ''a'') [] None None []"]
    parse_retry_once [where
      P = "\<lparr>zip_infolist = (\<lambda>b. Inl BadZipFile),
        et_fromstring = (\<lambda>d. if d = [60, 97, 47, 62]
                              then Inr (Elem (ustr ''a'') [] None None []) else Inl ParseError),
        json_loads = (\<lambda>b. None)\<rparr>"
      and data = "[60, 97, 1, 47, 62]"]
    parse_retry_once [where
      P = "\<lparr>zip_infolist = (\<lambda>b. Inl BadZipFile), et_fromstring = (\<lambda>d. Inl ParseError),
        json_loads = (\<lambda>b. None)\<rparr>"
      and data = "[60, 97, 1, 233]" and L = py_sample
      and info = "\<lparr>filename = ustr ''Slide1.XML'', is_dir = False, content = Some [60, 97, 1, 233]\<rparr>"
      and skip_alttext = True
      and st = "([(ustr ''a.xml'', ustr ''/p/#text'', ustr ''Hello'')],
        \<lparr>images = 1, audio = 0, video = 0, other = 0\<rparr>)"]
  by (simp add: endswith_def suffix_to_prefix text_defs word_le_nat_alt)

text \<open>
  An exception of the parser other than a parse error is not caught: the round of the
  loop raises it, and so do the scan and the extraction.
\<close>

lemma other_parser_exception_ends_run:
  assumes "endswith (py_lower L (filename info)) [''.xml'', ''.htm'', ''.html'']"
    and "\<not> is_dir info" and "content info = Some data"
    and "et_fromstring P data = Inl err" and "err \<noteq> ParseError"
  shows "scan_entry L P skip_alttext st info = Inl err"
    and "scan_entries L P skip_alttext st (info # after) = Inl err"
    and "zip_infolist P story_bytes = Inr (info # after)
         \<Longrightarrow> extract_rows_from_story L P story_bytes skip_alttext = Inl err"
proof -
  from assms(1) have ext4:
    "endswith (py_lower L (filename info)) [''.xml'', ''.htm'', ''.html'', ''.json'']"
    by (auto simp: endswith_def)
  have nj: "\<not> endswith (py_lower L (filename info)) [''.json'']"
    using assms(1) by (rule endswith_disjoint [rotated]) (simp add: ustr_def suffix_to_prefix)
  have "parse_xml_bytes P data = Inl err"
    using assms(4,5) by (simp add: parse_xml_bytes_def)
  then have "collect_entry L P skip_alttext info rows = Inl err" for rows
    using ext4 nj assms(2,3) by (simp add: collect_entry_def Let_def)
  then show one: "scan_entry L P skip_alttext st info = Inl err" for st
    by (simp add: scan_entry_def Let_def)
  then show "scan_entries L P skip_alttext st (info # after) = Inl err"
    by simp
  show "extract_rows_from_story L P story_bytes skip_alttext = Inl err"
    if "zip_infolist P story_bytes = Inr (info # after)"
    using that one by (simp add: extract_rows_from_story_def)
qed

section \<open>Normal form of the extracted text\<close>

lemma tidy_Cons_nonspace: "\<not> is_space x \<Longrightarrow> tidy (x # zs) = tidy zs"
  by (cases zs) simp_all

lemma sub_runs_nonspace_head: "\<not> P y \<Longrightarrow> sub_runs P r (y # xs) = y # sub_runs P r xs"
  by (cases xs) simp_all

lemma tidy_sub_runs: "tidy (sub_runs is_space [32] v)"
proof (induction is_space "[32::nat]" v rule: sub_runs.induct)
  case 1 show ?case by simp
next
  case (2 x) show ?case by simp
next
  case (3 x y xs)
  then show ?case
    by (cases "is_space y") (auto simp: sub_runs_nonspace_head tidy_Cons_nonspace)
qed

lemma tidy_append: "tidy (xs @ ys) \<Longrightarrow> tidy xs \<and> tidy ys"
proof (induction xs rule: tidy.induct)
  case 1 then show ?case by simp
next
  case (2 x) then show ?case by (cases ys) auto
next
  case (3 x y xs) then show ?case by auto
qed

lemma tidy_strip: assumes "tidy w" shows "tidy (strip w)"
proof -
  let ?a = "dropWhile is_space w"
  have "w = takeWhile is_space w @ ?a" by simp
  with assms have a: "tidy ?a" using tidy_append by metis
  have "?a = rev (dropWhile is_space (rev ?a)) @ rev (takeWhile is_space (rev ?a))"
    by (metis rev_append rev_rev_ident takeWhile_dropWhile_id)
  with a show ?thesis unfolding strip_def using tidy_append by metis
qed

lemma tidy_spaces: "tidy t \<Longrightarrow> c \<in> set t \<Longrightarrow> is_space c \<Longrightarrow> c = 32"
  by (induction t rule: tidy.induct) auto

lemma tidy_sub_runs_id: "tidy t \<Longrightarrow> sub_runs is_space [32] t = t"
  by (induction t rule: tidy.induct) (auto simp: sub_runs_nonspace_head)

lemma tidy_no_nbsp: assumes "tidy t" shows "map (\<lambda>c. if c = 160 then 32 else c) t = t"
proof -
  have "c \<noteq> 160" if "c \<in> set t" for c
    using tidy_spaces [OF assms that] by (auto simp: is_space_def)
  then show ?thesis by (simp add: map_idI)
qed

lemma strip_ends:
  assumes "strip w \<noteq> []"
  shows "\<not> is_space (hd (strip w)) \<and> \<not> is_space (last (strip w))"
proof -
  let ?a = "dropWhile is_space w"
  let ?b = "dropWhile is_space (rev ?a)"
  from assms have b: "?b \<noteq> []" by (simp add: strip_def)
  then have "\<not> is_space (hd ?b)" using hd_dropWhile by blast
  then have last: "\<not> is_space (last (strip w))" using b by (simp add: strip_def last_rev)
  have split: "?a = strip w @ rev (takeWhile is_space (rev ?a))"
    unfolding strip_def by (metis rev_append rev_rev_ident takeWhile_dropWhile_id)
  then have "hd ?a = hd (strip w)" using assms by (metis hd_append2)
  moreover have "?a \<noteq> []" using split assms by (metis Nil_is_append_conv)
  then have "\<not> is_space (hd ?a)" using hd_dropWhile by blast
  ultimately show ?thesis using last by simp
qed

lemma strip_id: "t = [] \<or> (\<not> is_space (hd t) \<and> \<not> is_space (last t)) \<Longrightarrow> strip t = t"
proof (cases "t = []")
  case True then show ?thesis by (simp add: strip_def)
next
  case False
  assume "t = [] \<or> (\<not> is_space (hd t) \<and> \<not> is_space (last t))"
  with False have h: "\<not> is_space (hd t)" and l: "\<not> is_space (last t)" by auto
  from h False have "dropWhile is_space t = t" by (cases t) auto
  moreover from l False have "dropWhile is_space (rev t) = rev t"
    by (cases "rev t") (auto simp: last_rev [symmetric] hd_rev)
  ultimately show ?thesis by (simp add: strip_def)
qed

lemma strip_idem: "strip (strip w) = strip w"
  using strip_ends [of w] strip_id [of "strip w"] by blast

lemma normalize_whitespace_fixed:
  "strip (sub_runs is_space [32]
       (map (\<lambda>c. if c = 160 then 32 else c) (normalize_text L (Some s))))
     = normalize_text L (Some s)"
proof -
  let ?w = "sub_runs is_space [32] (map (\<lambda>c. if c = 160 then 32 else c) (py_unescape L s))"
  have t: "normalize_text L (Some s) = strip ?w" by (simp add: normalize_text_def Let_def)
  have "tidy (strip ?w)" using tidy_sub_runs tidy_strip by blast
  then show ?thesis unfolding t by (simp add: tidy_no_nbsp tidy_sub_runs_id strip_idem)
qed


lemma node_rows_text:
  assumes "r \<in> set (node_rows L f i e path)"
  shows "snd (snd r) \<noteq> [] \<and> \<not> should_skip_text L (snd (snd r))
         \<and> (\<exists>s. snd (snd r) = normalize_text L (Some s))"
proof -
  have skip_empty: "should_skip_text L []" by (simp add: should_skip_text_def)
  from assms show ?thesis
    unfolding node_rows_def text_rows_def attr_rows_def tail_rows_def Let_def
    using skip_empty by (auto split: if_splits)
qed

lemma walk_rec_text:
  "r \<in> set (walk_rec L f i path e) \<Longrightarrow>
   snd (snd r) \<noteq> [] \<and> \<not> should_skip_text L (snd (snd r))
   \<and> (\<exists>s. snd (snd r) = normalize_text L (Some s))"
proof (induction L f i path e rule: walk_rec.induct)
  case (1 L f i path t a x y cs)
  show ?case
  proof (cases "bare_name t \<in> SKIP_TAGS")
    case True
    with 1(2) show ?thesis by simp
  next
    case False
    with 1(2) consider "r \<in> set (node_rows L f i (Elem t a x y cs) path)"
      | c where "c \<in> set cs" "r \<in> set (walk_rec L f i (path @ [bare_name t]) c)"
      by auto
    then show ?thesis
    proof cases
      case 1 then show ?thesis by (rule node_rows_text)
    next
      case 2 with "1.IH" False show ?thesis by blast
    qed
  qed
qed

lemma extract_from_json_text:
  "(r \<in> set (extract_from_json L doc f out) \<longrightarrow> r \<in> set out \<or>
      (snd (snd r) \<noteq> [] \<and> \<not> should_skip_text L (snd (snd r))
       \<and> (\<exists>s. snd (snd r) = normalize_text L (Some s))))"
  "(r \<in> set (extract_items L items f out) \<longrightarrow> r \<in> set out \<or>
      (snd (snd r) \<noteq> [] \<and> \<not> should_skip_text L (snd (snd r))
       \<and> (\<exists>s. snd (snd r) = normalize_text L (Some s))))"
  "(r \<in> set (extract_elems L vs f out) \<longrightarrow> r \<in> set out \<or>
      (snd (snd r) \<noteq> [] \<and> \<not> should_skip_text L (snd (snd r))
       \<and> (\<exists>s. snd (snd r) = normalize_text L (Some s))))"
  by (induction L doc f out and L items f out and L vs f out
       rule: extract_from_json_extract_items_extract_elems.induct)
     (auto simp: Let_def split: if_splits option.splits)

text \<open>
  C7 as stated fails. The element \<open><p>Q&amp;amp;amp;A</p>\<close> has the text
  \<open>Q&amp;amp;A\<close>; the walker decodes it once and emits \<open>Q&amp;A\<close>, which the
  normalizer turns into \<open>Q&A\<close>: the emitted text is not a fixed point.
\<close>

theorem emitted_text_not_fixed_point:
  "(ustr ''a.xml'', ustr ''/p/#text'', ustr ''Q&amp;A'')
     \<in> set (walk_xml_collect py_sample
               (Elem (ustr ''p'') [] (Some (ustr ''Q&amp;amp;A'')) None [])
               (ustr ''a.xml'') [] True)
   \<and> normalize_text py_sample (Some (ustr ''Q&amp;A'')) \<noteq> ustr ''Q&amp;A''"
  by (simp add: walker_defs text_defs)

text \<open>
  C7, amended. Every record that either walker appends has a text that is non-empty
  and is an output of the normalizer: decoded once, trimmed and whitespace-collapsed.
  The whitespace stages of the normalizer (non-breaking spaces, collapsing, trimming)
  leave it unchanged, and the whole normalizer leaves it unchanged whenever entity
  decoding does (for instance when it holds no ampersand).
\<close>

theorem emitted_text_normal_form:
  assumes "r \<in> set (walk_xml_collect L root file_id out_rows include_alttext)
           \<or> r \<in> set (extract_from_json L doc file_id out_rows)"
    and "r \<notin> set out_rows"
  shows "snd (snd r) \<noteq> []
         \<and> (\<exists>s. snd (snd r) = normalize_text L (Some s))
         \<and> strip (sub_runs is_space [32] (map (\<lambda>c. if c = 160 then 32 else c) (snd (snd r))))
             = snd (snd r)
         \<and> (py_unescape L (snd (snd r)) = snd (snd r)
              \<longrightarrow> normalize_text L (Some (snd (snd r))) = snd (snd r))"
proof -
  from assms have "r \<in> set (walk_rec L file_id include_alttext [] root)
                   \<or> r \<in> set (extract_from_json L doc file_id out_rows)"
    by (auto simp: walk_xml_collect_rec)
  with assms(2) extract_from_json_text(1) [of r L doc file_id out_rows]
    walk_rec_text [of r L file_id include_alttext "[]" root]
  obtain s where ne: "snd (snd r) \<noteq> []" and s: "snd (snd r) = normalize_text L (Some s)"
    by blast
  have ws: "strip (sub_runs is_space [32] (map (\<lambda>c. if c = 160 then 32 else c) (snd (snd r))))
              = snd (snd r)"
    unfolding s by (rule normalize_whitespace_fixed)
  have "normalize_text L (Some (snd (snd r))) = snd (snd r)"
    if "py_unescape L (snd (snd r)) = snd (snd r)"
    using that ws by (simp add: normalize_text_def Let_def)
  with ne s ws show ?thesis by blast
qed

theorem emitted_text_normal_form_witness:
  "((ustr ''a.xml'', ustr ''/p/#text'', ustr ''Click Here!!'')
      \<in> set (walk_xml_collect py_sample
                (Elem (ustr ''p'') [] (Some (ustr ''  Click&nbsp;Here!!  '')) None [])
                (ustr ''a.xml'') [] True)
    \<or> (ustr ''a.xml'', ustr ''/p/#text'', ustr ''Click Here!!'')
      \<in> set (extract_from_json py_sample JNull (ustr ''a.xml'') []))
   \<and> (ustr ''a.xml'', ustr ''/p/#text'', ustr ''Click Here!!'') \<notin> set []
   \<and> py_unescape py_sample (ustr ''Click Here!!'') = ustr ''Click Here!!''
   \<and> normalize_text py_sample (Some (ustr ''Click Here!!'')) = ustr ''Click Here!!''"
proof -
  have h: "(ustr ''a.xml'', ustr ''/p/#text'', ustr ''Click Here!!'')
      \<in> set (walk_xml_collect py_sample
                (Elem (ustr ''p'') [] (Some (ustr ''  Click&nbsp;Here!!  '')) None [])
                (ustr ''a.xml'') [] True)
    \<or> (ustr ''a.xml'', ustr ''/p/#text'', ustr ''Click Here!!'')
      \<in> set (extract_from_json py_sample JNull (ustr ''a.xml'') [])"
    by (simp add: walker_defs text_defs)
  have u: "py_unescape py_sample (ustr ''Click Here!!'') = ustr ''Click Here!!''"
    by (simp add: text_defs)
  show ?thesis
    using h u emitted_text_normal_form [OF h] by simp
qed

section \<open>Word counts of extracted records\<close>

text \<open>
  What does hold: a record never has an empty or noise-only text (lemmas
  \<open>node_rows_text\<close>, \<open>walk_rec_text\<close> and \<open>extract_from_json_text\<close> above), and a
  record whose text is ASCII counts at least one word, because a text that is not
  skipped holds a letter or a digit.
\<close>

lemma count_runs_pos: "list_ex P xs \<Longrightarrow> 0 < count_runs P xs"
  by (induction P xs rule: count_runs.induct) auto

lemma word_count_pos:
  assumes "list_ex (\<lambda>c. count_char c \<or> cjk_char c) t"
  shows "0 < word_count t"
proof (cases "list_ex cjk_char t")
  case True
  then have "filter cjk_char t \<noteq> []" by (auto simp: list_ex_iff filter_empty_conv)
  then show ?thesis using True by (auto simp: word_count_def Let_def)
next
  case False
  then have "map (\<lambda>c. if cjk_char c then 32 else c) t = t"
    by (auto simp: list_ex_iff intro: map_idI)
  moreover from assms False have "list_ex count_char t" by (auto simp: list_ex_iff)
  then have "0 < count_runs count_char t" by (rule count_runs_pos)
  ultimately show ?thesis using assms by (auto simp: word_count_def Let_def)
qed

lemma ascii_survivor_counts_a_word:
  assumes "\<not> should_skip_text L t" and "\<forall>c\<in>set t. c < 128"
  shows "1 \<le> word_count t"
proof -
  from assms(1) obtain c where c: "c \<in> set t" "is_word L c" "c \<noteq> 95"
    by (auto simp: should_skip_text_def fullmatch_plus_def list_all_iff split: if_splits)
  with assms(2) have "ascii_alnum c" by (auto simp: is_word_def)
  then have "count_char c" by (auto simp: ascii_alnum_def count_char_def)
  with c(1) have "list_ex (\<lambda>c. count_char c \<or> cjk_char c) t" by (auto simp: list_ex_iff)
  from word_count_pos [OF this] show ?thesis by simp
qed

lemma ascii_record_counts_a_word:
  assumes "r \<in> set (walk_xml_collect L root file_id out_rows include_alttext)
           \<or> r \<in> set (extract_from_json L doc file_id out_rows)"
    and "r \<notin> set out_rows"
    and "\<forall>c\<in>set (snd (snd r)). c < 128"
  shows "1 \<le> word_count (snd (snd r))"
proof -
  from assms(1,2) have "r \<in> set (walk_rec L file_id include_alttext [] root)
                   \<or> r \<in> set (extract_from_json L doc file_id out_rows)"
    by (auto simp: walk_xml_collect_rec)
  with assms(2) extract_from_json_text(1) [of r L doc file_id out_rows]
    walk_rec_text [of r L file_id include_alttext "[]" root]
  have "\<not> should_skip_text L (snd (snd r))" by blast
  then show ?thesis using assms(3) by (rule ascii_survivor_counts_a_word)
qed

text \<open>
  C1 (the code departs from the claim). An archive with one entry \<open>slide.xml\<close> that
  parses to \<open><p>\<dots></p>\<close> with the six Cyrillic letters U+043F U+0440 U+0438 U+0432
  U+0435 U+0442 as text: the record survives classification, deduplication, sorting and
  the minimum-length filter (at its smallest setting 1), and its word count is 0.
\<close>

theorem cyrillic_record_has_word_count_zero:
  "extract_rows_from_story py_sample
     \<lparr>zip_infolist =
        (\<lambda>b. Inr [\<lparr>filename = ustr ''slide.xml'', is_dir = False, content = Some []\<rparr>]),
      et_fromstring =
        (\<lambda>b. Inr (Elem (ustr ''p'') [] (Some [1087, 1088, 1080, 1074, 1077, 1090]) None [])),
      json_loads = (\<lambda>b. None)\<rparr> [] True
   = Inr ([(ustr ''slide.xml'', ustr ''/p/#text'', [1087, 1088, 1080, 1074, 1077, 1090])],
       \<lparr>images = 0, audio = 0, video = 0, other = 0\<rparr>)
   \<and> min_length_filter 1
        [(ustr ''slide.xml'', ustr ''/p/#text'', [1087, 1088, 1080, 1074, 1077, 1090])]
      = [(ustr ''slide.xml'', ustr ''/p/#text'', [1087, 1088, 1080, 1074, 1077, 1090])]
   \<and> word_count [1087, 1088, 1080, 1074, 1077, 1090] = 0"
  by (simp add: scan_defs word_count_def cjk_char_def count_char_def walker_defs text_defs)

section \<open>Deduplication and sorting\<close>

lemma dedup_loop_acc: "dedup_loop seen out rows = out @ dedup_loop seen [] rows"
proof (induction rows arbitrary: seen out)
  case Nil show ?case by simp
next
  case (Cons r rows)
  show ?case
    using Cons [of seen out] Cons [of "insert r seen" "out @ [r]"] Cons [of "insert r seen" "[r]"]
    by simp
qed

lemma dedup_loop_snoc:
  "dedup_loop seen [] (xs @ [x])
     = dedup_loop seen [] xs @ (if x \<in> seen \<union> set xs then [] else [x])"
proof (induction xs arbitrary: seen)
  case Nil show ?case by simp
next
  case (Cons a xs)
  show ?case
  proof (cases "a \<in> seen")
    case True
    then show ?thesis using Cons [of seen] by auto
  next
    case False
    then show ?thesis
      using Cons [of "insert a seen"]
        dedup_loop_acc [of "insert a seen" "[a]" "xs @ [x]"]
        dedup_loop_acc [of "insert a seen" "[a]" xs]
      by auto
  qed
qed

lemma dedup_loop_first_occurrences:
  "dedup_loop {} [] rows
     = map (\<lambda>i. rows ! i) (filter (\<lambda>i. rows ! i \<notin> set (take i rows)) [0..<length rows])"
proof (induction rows rule: rev_induct)
  case Nil show ?case by simp
next
  case (snoc x xs)
  let ?Q = "\<lambda>i. (xs @ [x]) ! i \<notin> set (take i (xs @ [x]))"
  have f: "filter ?Q [0..<length xs] = filter (\<lambda>i. xs ! i \<notin> set (take i xs)) [0..<length xs]"
    by (rule filter_cong) (auto simp: nth_append)
  have m: "map (\<lambda>i. (xs @ [x]) ! i) (filter (\<lambda>i. xs ! i \<notin> set (take i xs)) [0..<length xs])
             = map (\<lambda>i. xs ! i) (filter (\<lambda>i. xs ! i \<notin> set (take i xs)) [0..<length xs])"
    by (rule map_cong) (auto simp: nth_append)
  have last: "map (\<lambda>i. (xs @ [x]) ! i) (filter ?Q [length xs]) = (if x \<in> set xs then [] else [x])"
    by simp
  have "map (\<lambda>i. (xs @ [x]) ! i) (filter ?Q [0..<length (xs @ [x])])
          = map (\<lambda>i. (xs @ [x]) ! i) (filter ?Q [0..<length xs])
            @ map (\<lambda>i. (xs @ [x]) ! i) (filter ?Q [length xs])"
    by (simp del: take_append nth_append_length)
  also have "\<dots> = dedup_loop {} [] xs @ (if x \<in> set xs then [] else [x])"
    unfolding f m last snoc.IH ..
  also have "\<dots> = dedup_loop {} [] (xs @ [x])"
    by (simp add: dedup_loop_snoc)
  finally show ?case by simp
qed

lemma dedup_loop_set: "set (dedup_loop {} [] rows) = set rows"
  by (induction rows rule: rev_induct) (auto simp: dedup_loop_snoc)

lemma dedup_loop_distinct: "distinct (dedup_loop {} [] rows)"
  by (induction rows rule: rev_induct) (auto simp: dedup_loop_snoc dedup_loop_set)

lemma dedup_loop_distinct_id: "distinct rows \<Longrightarrow> dedup_loop {} [] rows = rows"
  by (induction rows rule: rev_induct) (auto simp: dedup_loop_snoc)

text \<open>
  C4. The deduplication loop keeps the candidate at position \<open>i\<close> exactly when the
  same triple does not occur among the candidates before it (an earlier occurrence is
  always kept: the kept rows are the candidates without repetition), so the first
  occurrence wins and the rest is dropped, in the order of the candidates. The sort
  then orders the kept rows by \<open>(unit_id.lower(), path.lower())\<close> ascending, keeps
  exactly these rows, and leaves rows with the same key in the order of the
  deduplication pass.
\<close>

theorem dedup_first_wins_then_stable_sort:
  "dedup_loop {} [] rows
     = map (\<lambda>i. rows ! i) (filter (\<lambda>i. rows ! i \<notin> set (take i rows)) [0..<length rows])
   \<and> set (dedup_loop {} [] rows) = set rows
   \<and> distinct (dedup_loop {} [] rows)
   \<and> sorted (map (\<lambda>r. (py_lower L (fst r), py_lower L (fst (snd r))))
               (sort_rows L (dedup_loop {} [] rows)))
   \<and> mset (sort_rows L (dedup_loop {} [] rows)) = mset (dedup_loop {} [] rows)
   \<and> (\<forall>k. filter (\<lambda>r. (py_lower L (fst r), py_lower L (fst (snd r))) = k)
               (sort_rows L (dedup_loop {} [] rows))
          = filter (\<lambda>r. (py_lower L (fst r), py_lower L (fst (snd r))) = k)
               (dedup_loop {} [] rows))"
  using dedup_loop_first_occurrences [of rows] dedup_loop_set [of rows] dedup_loop_distinct [of rows]
  by (simp add: sort_rows_def sort_key_stable)

text \<open>An example: the third candidate repeats the first and is dropped; the three rows
  of \<open>a.xml\<close> and \<open>A.xml\<close> have the same key and stay in candidate order.\<close>

lemma dedup_sort_example:
  "sort_rows py_sample (dedup_loop {} []
     [(ustr ''B.xml'', ustr ''/p/#text'', ustr ''one''),
      (ustr ''a.xml'', ustr ''/P/#text'', ustr ''two''),
      (ustr ''B.xml'', ustr ''/p/#text'', ustr ''one''),
      (ustr ''a.xml'', ustr ''/p/#text'', ustr ''three''),
      (ustr ''A.xml'', ustr ''/p/#text'', ustr ''two'')])
   = [(ustr ''a.xml'', ustr ''/P/#text'', ustr ''two''),
      (ustr ''a.xml'', ustr ''/p/#text'', ustr ''three''),
      (ustr ''A.xml'', ustr ''/p/#text'', ustr ''two''),
      (ustr ''B.xml'', ustr ''/p/#text'', ustr ''one'')]"
  by (simp add: sort_rows_def text_defs)

section \<open>Determinism of the extraction\<close>

text \<open>
  The layout of the \<open>seen\<close> table is the one thing that differs between two runs on
  the same bytes. The loop never reads the layout: the table of a run always holds the
  members of the abstract set, so every membership test has the same answer.
\<close>

lemma set_add_members: "set (set_add h key seen) = insert key (set seen)"
  by (auto simp: set_add_def set_insort_key)

lemma dedup_run_loop: "dedup_run h seen out rows = dedup_loop (set seen) out rows"
  by (induction rows arbitrary: seen out) (simp_all add: set_contains_def set_add_members)

lemma extract_rows_run_eq:
  "extract_rows_run h L P story_bytes skip_alttext
     = extract_rows_from_story L P story_bytes skip_alttext"
  by (simp add: extract_rows_run_def extract_rows_from_story_def dedup_run_loop
      split: sum.splits)

text \<open>The tables of two runs do differ: two rows that one hash function puts in one
  order and another in the other.\<close>

lemma seen_layout_depends_on_run:
  "set_add (\<lambda>r. length (snd (snd r))) (ustr ''a.xml'', ustr ''/p/#text'', ustr ''Hello'')
     (set_add (\<lambda>r. length (snd (snd r))) (ustr ''a.xml'', ustr ''/p/#text'', ustr ''Hi'') [])
   \<noteq> set_add (\<lambda>r. 9 - length (snd (snd r))) (ustr ''a.xml'', ustr ''/p/#text'', ustr ''Hello'')
     (set_add (\<lambda>r. 9 - length (snd (snd r))) (ustr ''a.xml'', ustr ''/p/#text'', ustr ''Hi'') [])"
  by (simp add: set_add_def ustr_def)


section \<open>The partitioner\<close>

lemma set_children_sel [simp]:
  "tag (set_children e cs) = tag e" "children (set_children e cs) = cs"
  by (simp_all add: set_children_def)








lemma map_upd_first:
  "(\<And>x. P x = P' (h x)) \<Longrightarrow> (\<And>x. P x \<Longrightarrow> h (g x) = g' (h x)) \<Longrightarrow>
   map h (upd_first P g xs) = upd_first P' g' (map h xs)"
  by (induction xs) auto




















lemma iter_units_subset: "set (iter_trans_units t) \<subseteq> set (body_units t)"
  by (auto simp: iter_trans_units_def body_units_def findall_def et_findall_def is_trans_unit_def
      Let_def split: option.splits if_splits)

lemmas xliff_defs =
  filter_xliff_def iter_trans_units_def clone_shell_def clear_body_def
  append_tu_to_output_shell_def contexts_for_tu_def matches_any_def get_text_recursive_def
  nonempty_def findall_def find_def et_findall_def et_find_def resolved_def set_children_def
  is_trans_unit_def q_def XLIFF_NS_def ustr_def strip_def is_space_def lower_ascii_def Let_def

lemmas ex_defs = ex_unit1_def ex_unit2_def ex_unit3_def ex_doc_def ex_notes_def ex_alt_def


text \<open>
  A second departure, of the other kind: a plain trans-unit beside a qualified one is
  cleared from both shells and never iterated over, so it is in neither output although
  it matches no pattern.
\<close>

lemma plain_unit_beside_qualified_dropped:
  "filter_xliff
     (Elem (ustr ''xliff'') [] None None
        [Elem (ustr ''file'') [] None None
           [Elem (ustr ''body'') [] None None
              [Elem (q (ustr ''trans-unit'')) [(ustr ''id'', ustr ''1'')] None None
                 [Elem (ustr ''source'') [] (Some (ustr ''Hello'')) None []],
               Elem (ustr ''trans-unit'') [(ustr ''id'', ustr ''2'')] None None
                 [Elem (ustr ''source'') [] (Some (ustr ''Bye'')) None []]]]])
     ex_notes ex_alt
   = Inr
     (Elem (ustr ''xliff'') [] None None
        [Elem (ustr ''file'') [] None None [Elem (ustr ''body'') [] None None []]],
      Elem (ustr ''xliff'') [] None None
        [Elem (ustr ''file'') [] None None
           [Elem (ustr ''body'') [] None None
              [Elem (q (ustr ''trans-unit'')) [(ustr ''id'', ustr ''1'')] None None
                 [Elem (ustr ''source'') [] (Some (ustr ''Hello'')) None []]]]])"
  by (simp add: xliff_defs ex_defs sublist_code prefix_code)



end
